theory Spec2Isabelle
  imports Complex_Main "HOL-Library.Multiset" "HOL-Library.Sublist"
begin

section \<open>JavaScript strings and numbers, as far as the program uses them\<close>

text \<open>
  A string is a list of 8-bit code units. White space is what \<open>String.prototype.trim\<close> and
  the regular-expression class \<open>\s\<close> accept among the code units below 256: tab, line feed,
  vertical tab, form feed, carriage return, space and the no-break space. Case mapping is
  the ASCII one; every literal the program compares against is ASCII.
\<close>

definition isSpace :: "char \<Rightarrow> bool" where
  "isSpace c = (c \<in> {CHR 0x09, CHR 0x0A, CHR 0x0B, CHR 0x0C, CHR 0x0D, CHR 0x20, CHR 0xA0})"

definition trimStart :: "string \<Rightarrow> string" where
  "trimStart s = dropWhile isSpace s"

definition trim :: "string \<Rightarrow> string" where
  "trim s = rev (dropWhile isSpace (rev (dropWhile isSpace s)))"

definition upperChar :: "char \<Rightarrow> char" where
  "upperChar c =
     (case map_of (zip ''abcdefghijklmnopqrstuvwxyz'' ''ABCDEFGHIJKLMNOPQRSTUVWXYZ'') c of
        Some u \<Rightarrow> u | None \<Rightarrow> c)"

definition lowerChar :: "char \<Rightarrow> char" where
  "lowerChar c =
     (case map_of (zip ''ABCDEFGHIJKLMNOPQRSTUVWXYZ'' ''abcdefghijklmnopqrstuvwxyz'') c of
        Some l \<Rightarrow> l | None \<Rightarrow> c)"

definition toUpperCase :: "string \<Rightarrow> string" where
  "toUpperCase s = map upperChar s"

definition toLowerCase :: "string \<Rightarrow> string" where
  "toLowerCase s = map lowerChar s"

definition startsWith :: "string \<Rightarrow> string \<Rightarrow> bool" where
  "startsWith s p = (take (length p) s = p)"

text \<open>Decimal rendering of an integer, as a template literal renders an integral number.\<close>

definition digitChar :: "nat \<Rightarrow> char" where
  "digitChar n = ''0123456789'' ! (n mod 10)"

function showDigits :: "int \<Rightarrow> string" where
  "showDigits n =
     (if n < 10 then [digitChar (nat n)]
      else showDigits (n div 10) @ [digitChar (nat (n mod 10))])"
  by pat_completeness auto
termination
  by (relation "measure nat") auto

declare showDigits.simps [simp del]

definition showInt :: "int \<Rightarrow> string" where
  "showInt i = (if i < 0 then CHR ''-'' # showDigits (- i) else showDigits i)"

definition showNat :: "nat \<Rightarrow> string" where
  "showNat n = showDigits (int n)"

section \<open>Data model\<close>

record Filing =
  form :: string
  accessionNumber :: string
  filingDate :: string
  primaryDocument :: string

record ExhibitDoc =
  seq :: string
  description :: string
  type :: string
  filename :: string
  sizeText :: string

record SelectedFiling =
  filing :: Filing
  reason :: string

section \<open>Form-code predicates\<close>

definition normForm :: "string \<Rightarrow> string" where
  "normForm f = toUpperCase (trim f)"

definition isS3 :: "string \<Rightarrow> bool" where
  "isS3 fm = (let f = normForm fm in
     f = ''S-3'' \<or> f = ''S-3/A'' \<or> f = ''S-3MEF'' \<or> f = ''S-3ASR'')"

definition isProxy :: "string \<Rightarrow> bool" where
  "isProxy fm = (let f = normForm fm in
     f = ''DEF 14A'' \<or> f = ''DEFA14A'' \<or> f = ''DEF 14C'' \<or> f = ''PRE 14C'')"

definition isProspectus :: "string \<Rightarrow> bool" where
  "isProspectus fm = (let f = normForm fm in
     startsWith f ''424B'' \<or> f = ''424B5'' \<or> f = ''424B3'' \<or> f = ''424B2'')"

section \<open>Numbers\<close>

text \<open>
  A JavaScript number is NaN, an infinity or a finite value; every finite double is a
  rational. The relational operators are false as soon as one side is NaN.
\<close>

datatype jsnum = NaN | NegInf | Fin rat | PosInf

fun jsLt :: "jsnum \<Rightarrow> jsnum \<Rightarrow> bool" where
  "jsLt (Fin x) (Fin y) = (x < y)"
| "jsLt NegInf (Fin y) = True"
| "jsLt NegInf PosInf = True"
| "jsLt (Fin x) PosInf = True"
| "jsLt _ _ = False"

fun jsLe :: "jsnum \<Rightarrow> jsnum \<Rightarrow> bool" where
  "jsLe (Fin x) (Fin y) = (x \<le> y)"
| "jsLe NegInf (Fin y) = True"
| "jsLe NegInf PosInf = True"
| "jsLe (Fin x) PosInf = True"
| "jsLe NegInf NegInf = True"
| "jsLe PosInf PosInf = True"
| "jsLe _ _ = False"

definition jsGt :: "jsnum \<Rightarrow> jsnum \<Rightarrow> bool" where
  "jsGt a b = jsLt b a"

definition jsGe :: "jsnum \<Rightarrow> jsnum \<Rightarrow> bool" where
  "jsGe a b = jsLe b a"

fun jsNeg :: "jsnum \<Rightarrow> jsnum" where
  "jsNeg NaN = NaN"
| "jsNeg NegInf = PosInf"
| "jsNeg PosInf = NegInf"
| "jsNeg (Fin x) = Fin (- x)"

fun jsMul :: "jsnum \<Rightarrow> jsnum \<Rightarrow> jsnum" where
  "jsMul (Fin x) (Fin y) = Fin (x * y)"
| "jsMul NaN _ = NaN"
| "jsMul _ NaN = NaN"
| "jsMul PosInf (Fin y) = (if y > 0 then PosInf else if y < 0 then NegInf else NaN)"
| "jsMul NegInf (Fin y) = (if y > 0 then NegInf else if y < 0 then PosInf else NaN)"
| "jsMul (Fin x) PosInf = (if x > 0 then PosInf else if x < 0 then NegInf else NaN)"
| "jsMul (Fin x) NegInf = (if x > 0 then NegInf else if x < 0 then PosInf else NaN)"
| "jsMul PosInf PosInf = PosInf"
| "jsMul NegInf NegInf = PosInf"
| "jsMul PosInf NegInf = NegInf"
| "jsMul NegInf PosInf = NegInf"

fun jsSub :: "jsnum \<Rightarrow> jsnum \<Rightarrow> jsnum" where
  "jsSub (Fin x) (Fin y) = Fin (x - y)"
| "jsSub NaN _ = NaN"
| "jsSub _ NaN = NaN"
| "jsSub PosInf PosInf = NaN"
| "jsSub NegInf NegInf = NaN"
| "jsSub PosInf _ = PosInf"
| "jsSub NegInf _ = NegInf"
| "jsSub (Fin x) PosInf = NegInf"
| "jsSub (Fin x) NegInf = PosInf"

text \<open>A byte count or a counter as a number.\<close>

definition ofNat :: "nat \<Rightarrow> jsnum" where
  "ofNat n = Fin (of_nat n)"

text \<open>
  The rendering of a number in a template literal is the runtime's, a parameter of the
  functions that print numbers of any kind. For running those functions on concrete
  inputs, \<open>showNumber\<close> prints the special values, whole numbers in decimal notation and,
  of any other value, the decimal expansion with up to twenty fraction digits: what the
  runtime prints for a whole number below 1e21 and for a fraction such as 30.5 whose
  expansion is short.
\<close>

fun fracDigits :: "nat \<Rightarrow> rat \<Rightarrow> string" where
  "fracDigits 0 r = []"
| "fracDigits (Suc k) r =
     (if r = 0 then []
      else digitChar (nat \<lfloor>r * 10\<rfloor>) # fracDigits k (r * 10 - of_int \<lfloor>r * 10\<rfloor>))"

definition showNumber :: "jsnum \<Rightarrow> string" where
  "showNumber v =
     (case v of
        NaN \<Rightarrow> ''NaN''
      | PosInf \<Rightarrow> ''Infinity''
      | NegInf \<Rightarrow> ''-Infinity''
      | Fin r \<Rightarrow>
          if r = of_int \<lfloor>r\<rfloor> then showInt \<lfloor>r\<rfloor>
          else (if r < 0 then ''-'' else []) @ showDigits \<lfloor>\<bar>r\<bar>\<rfloor> @ ''.''
               @ fracDigits 20 (\<bar>r\<bar> - of_int \<lfloor>\<bar>r\<bar>\<rfloor>))"

section \<open>Time values\<close>

text \<open>
  A \<open>Date\<close> is its time value in milliseconds since the epoch, \<open>None\<close> for an invalid date
  (time value NaN). \<open>new Date(string)\<close> is the runtime's date parser and \<open>new Date()\<close> its
  clock: both are parameters of the selection, \<open>parse\<close> and \<open>now\<close>. \<open>getTime()\<close> of an
  invalid date is NaN. \<open>new Date(number)\<close> clips: NaN, an infinity and a value beyond
  8.64e15 ms in magnitude give an invalid date, every other number is cut to whole
  milliseconds, toward zero. A relational comparison with an invalid date is false.
\<close>

type_synonym jsdate = "int option"

definition getTime :: "jsdate \<Rightarrow> jsnum" where
  "getTime d = (case d of None \<Rightarrow> NaN | Some t \<Rightarrow> Fin (of_int t))"

definition truncRat :: "rat \<Rightarrow> int" where
  "truncRat r = (if r < 0 then \<lceil>r\<rceil> else \<lfloor>r\<rfloor>)"

definition timeClip :: "jsnum \<Rightarrow> jsdate" where
  "timeClip t =
     (case t of
        Fin r \<Rightarrow> if \<bar>r\<bar> > 8640000000000000 then None else Some (truncRat r)
      | _ \<Rightarrow> None)"

text \<open>
  The operators \<open>*\<close> and \<open>-\<close> on numbers are double arithmetic: a finite exact result is
  rounded to a double, or to an infinity when it is beyond the largest double. The
  rounding is the runtime's, the parameter \<open>rnd\<close> of the functions that compute with
  numbers of any size. For running them on concrete inputs \<open>Fin\<close> serves, which rounds
  nothing: the results there are whole numbers far below \<open>2^53\<close>, or halves of such, and
  these are doubles.
\<close>

definition roundTo :: "(rat \<Rightarrow> jsnum) \<Rightarrow> jsnum \<Rightarrow> jsnum" where
  "roundTo rnd v = (case v of Fin r \<Rightarrow> rnd r | _ \<Rightarrow> v)"

definition dMul :: "(rat \<Rightarrow> jsnum) \<Rightarrow> jsnum \<Rightarrow> jsnum \<Rightarrow> jsnum" where
  "dMul rnd a b = roundTo rnd (jsMul a b)"

definition dSub :: "(rat \<Rightarrow> jsnum) \<Rightarrow> jsnum \<Rightarrow> jsnum \<Rightarrow> jsnum" where
  "dSub rnd a b = roundTo rnd (jsSub a b)"

definition dateLe :: "jsdate \<Rightarrow> jsdate \<Rightarrow> bool" where
  "dateLe x y = (case (x, y) of (Some a, Some b) \<Rightarrow> a \<le> b | _ \<Rightarrow> False)"

definition dateGe :: "jsdate \<Rightarrow> jsdate \<Rightarrow> bool" where
  "dateGe x y = (case (x, y) of (Some a, Some b) \<Rightarrow> a \<ge> b | _ \<Rightarrow> False)"

text \<open>
  For running the selection on concrete inputs: the date parser on the date-only ISO form
  \<open>YYYY-MM-DD\<close>, which the language standard reads as midnight UTC of that day. Every
  other string is an invalid date here; what the runtime makes of other strings is left
  to the parameter \<open>parse\<close> of the selection.
\<close>

definition msPerDay :: int where
  "msPerDay = 24 * 60 * 60 * 1000"

definition digitVal :: "char \<Rightarrow> int option" where
  "digitVal c = map_of (zip ''0123456789'' [0, 1, 2, 3, 4, 5, 6, 7, 8, 9]) c"

fun digitsVal :: "int \<Rightarrow> string \<Rightarrow> int option" where
  "digitsVal acc [] = Some acc"
| "digitsVal acc (c # cs) =
     (case digitVal c of None \<Rightarrow> None | Some d \<Rightarrow> digitsVal (10 * acc + d) cs)"

definition isLeap :: "int \<Rightarrow> bool" where
  "isLeap y = (y mod 4 = 0 \<and> (y mod 100 \<noteq> 0 \<or> y mod 400 = 0))"

definition daysInMonth :: "int \<Rightarrow> int \<Rightarrow> int" where
  "daysInMonth y m =
     (if m = 2 then (if isLeap y then 29 else 28)
      else if m \<in> {4, 6, 9, 11} then 30 else 31)"

definition daysFromCivil :: "int \<Rightarrow> int \<Rightarrow> int \<Rightarrow> int" where
  "daysFromCivil y m d =
     (let y' = (if m \<le> 2 then y - 1 else y);
          era = y' div 400;
          yoe = y' - era * 400;
          doy = (153 * (if m > 2 then m - 3 else m + 9) + 2) div 5 + d - 1;
          doe = yoe * 365 + yoe div 4 - yoe div 100 + doy
      in era * 146097 + doe - 719468)"

definition isoDate :: "string \<Rightarrow> jsdate" where
  "isoDate s =
     (if length s = 10 \<and> s ! 4 = CHR ''-'' \<and> s ! 7 = CHR ''-'' then
        (case (digitsVal 0 (take 4 s), digitsVal 0 (take 2 (drop 5 s)), digitsVal 0 (drop 8 s)) of
           (Some y, Some m, Some d) \<Rightarrow>
             if 1 \<le> m \<and> m \<le> 12 \<and> 1 \<le> d \<and> d \<le> daysInMonth y m
             then Some (daysFromCivil y m d * msPerDay) else None
         | _ \<Rightarrow> None)
      else None)"

section \<open>Numeric literals\<close>

text \<open>
  The runtime's conversions from strings, \<open>Number(s)\<close> and \<open>parseFloat(s)\<close>, are
  parameters of the functions that call them. For running those functions on concrete
  inputs, \<open>toNumber\<close> and \<open>parseFloat\<close> below read the language's numeric literals and give
  the literal's exact value; the runtime rounds that value to the nearest double, so the
  two agree wherever the exact value is a double.
\<close>

definition isDigit :: "char \<Rightarrow> bool" where
  "isDigit c = (c \<in> set ''0123456789'')"

definition pow10 :: "int \<Rightarrow> rat" where
  "pow10 e = (if e \<ge> 0 then 10 ^ nat e else 1 / 10 ^ nat (- e))"

definition digitsRat :: "string \<Rightarrow> rat" where
  "digitsRat ds = (case digitsVal 0 ds of Some v \<Rightarrow> of_int v | None \<Rightarrow> 0)"

definition scanExponent :: "string \<Rightarrow> (int \<times> string) option" where
  "scanExponent s =
     (case s of [] \<Rightarrow> None
      | c # r \<Rightarrow>
          if c = CHR ''e'' \<or> c = CHR ''E'' then
            (let neg = (r \<noteq> [] \<and> hd r = CHR ''-'');
                 r' = (if r \<noteq> [] \<and> (hd r = CHR ''-'' \<or> hd r = CHR ''+'') then tl r else r);
                 ds = takeWhile isDigit r'
             in if ds = [] then None
                else (case digitsVal 0 ds of None \<Rightarrow> None
                      | Some v \<Rightarrow> Some (if neg then - v else v, dropWhile isDigit r')))
          else None)"

definition scanUnsigned :: "string \<Rightarrow> (jsnum \<times> string) option" where
  "scanUnsigned s =
     (if startsWith s ''Infinity'' then Some (PosInf, drop 8 s)
      else
        (let ip = takeWhile isDigit s;
             r1 = dropWhile isDigit s;
             dot = (r1 \<noteq> [] \<and> hd r1 = CHR ''.'');
             frac = (if dot then takeWhile isDigit (tl r1) else []);
             r2 = (if dot then dropWhile isDigit (tl r1) else r1)
         in if ip = [] \<and> frac = [] then None
            else
              (let m = digitsRat ip + digitsRat frac / 10 ^ length frac
               in case scanExponent r2 of
                    Some (e, r3) \<Rightarrow> Some (Fin (m * pow10 e), r3)
                  | None \<Rightarrow> Some (Fin m, r2))))"

definition scanSigned :: "string \<Rightarrow> (jsnum \<times> string) option" where
  "scanSigned s =
     (case s of [] \<Rightarrow> None
      | c # r \<Rightarrow>
          if c = CHR ''-'' then map_option (\<lambda>(v, t). (jsNeg v, t)) (scanUnsigned r)
          else if c = CHR ''+'' then scanUnsigned r
          else scanUnsigned s)"

definition parseFloat :: "string \<Rightarrow> jsnum" where
  "parseFloat s = (case scanSigned (trimStart s) of Some (v, _) \<Rightarrow> v | None \<Rightarrow> NaN)"

fun radixVal :: "int \<Rightarrow> int \<Rightarrow> string \<Rightarrow> int option" where
  "radixVal b acc [] = Some acc"
| "radixVal b acc (c # cs) =
     (case map_of (zip ''0123456789abcdef'' [0, 1, 2, 3, 4, 5, 6, 7, 8, 9, 10, 11, 12, 13, 14, 15])
             (lowerChar c) of
        None \<Rightarrow> None
      | Some d \<Rightarrow> if d < b then radixVal b (b * acc + d) cs else None)"

definition nonDecimal :: "string \<Rightarrow> jsnum option" where
  "nonDecimal t =
     (let p = map lowerChar (take 2 t);
          b = (if p = ''0x'' then 16 else if p = ''0o'' then 8 else if p = ''0b'' then 2 else 0)
      in if b = 0 then None
         else if drop 2 t = [] then Some NaN
         else (case radixVal b 0 (drop 2 t) of None \<Rightarrow> Some NaN | Some v \<Rightarrow> Some (Fin (of_int v))))"

definition toNumber :: "string \<Rightarrow> jsnum" where
  "toNumber s =
     (let t = trim s in
      if t = [] then Fin 0
      else (case nonDecimal t of
              Some v \<Rightarrow> v
            | None \<Rightarrow> (case scanSigned t of Some (v, []) \<Rightarrow> v | _ \<Rightarrow> NaN)))"

text \<open>\<open>String(parseInt(s, 10))\<close>: the decimal digits after optional white space and sign.\<close>

definition parseInt10 :: "string \<Rightarrow> int option" where
  "parseInt10 s =
     (let t = trimStart s;
          neg = (t \<noteq> [] \<and> hd t = CHR ''-'');
          r = (if t \<noteq> [] \<and> (hd t = CHR ''-'' \<or> hd t = CHR ''+'') then tl t else t);
          ds = takeWhile isDigit r
      in if ds = [] then None
         else map_option (\<lambda>v. if neg then - v else v) (digitsVal 0 ds))"

section \<open>Filing selection\<close>

text \<open>
  \<open>daysBack\<close> is a number, of any kind: the callers pass what \<open>Number\<close> made of the query
  parameter. \<open>asOf\<close> is optional; the empty string is falsy and so counts as absent. Beside
  the date parser and the clock the selection has the runtime's rounding \<open>rnd\<close> (for the
  product \<open>daysBack * 24 * 60 * 60 * 1000\<close> and the difference) and its number rendering
  \<open>str\<close> (for the reasons) as parameters.
\<close>

definition asOfDate :: "(string \<Rightarrow> jsdate) \<Rightarrow> int \<Rightarrow> string option \<Rightarrow> jsdate" where
  "asOfDate parse now asOf =
     (case asOf of None \<Rightarrow> Some now
      | Some s \<Rightarrow> if s = [] then Some now else parse s)"

definition cutoff ::
  "(rat \<Rightarrow> jsnum) \<Rightarrow> (string \<Rightarrow> jsdate) \<Rightarrow> int \<Rightarrow> jsnum \<Rightarrow> string option \<Rightarrow> jsdate" where
  "cutoff rnd parse now daysBack asOf =
     timeClip
       (dSub rnd (getTime (asOfDate parse now asOf))
          (dMul rnd (dMul rnd (dMul rnd (dMul rnd daysBack (Fin 24)) (Fin 60)) (Fin 60)) (Fin 1000)))"

definition onOrBefore :: "(string \<Rightarrow> jsdate) \<Rightarrow> int \<Rightarrow> string option \<Rightarrow> Filing \<Rightarrow> bool" where
  "onOrBefore parse now asOf f = dateLe (parse (filingDate f)) (asOfDate parse now asOf)"

definition withinWindow ::
  "(rat \<Rightarrow> jsnum) \<Rightarrow> (string \<Rightarrow> jsdate) \<Rightarrow> int \<Rightarrow> jsnum \<Rightarrow> string option \<Rightarrow> Filing \<Rightarrow> bool" where
  "withinWindow rnd parse now daysBack asOf f =
     (dateGe (parse (filingDate f)) (cutoff rnd parse now daysBack asOf) \<and>
      dateLe (parse (filingDate f)) (asOfDate parse now asOf))"

definition eligible :: "(string \<Rightarrow> jsdate) \<Rightarrow> int \<Rightarrow> string option \<Rightarrow> Filing list \<Rightarrow> Filing list" where
  "eligible parse now asOf filings = filter (onOrBefore parse now asOf) filings"

text \<open>\<open>find\<close> followed by a guarded \<open>push\<close>: zero or one entry.\<close>

definition pushLatest :: "(Filing \<Rightarrow> bool) \<Rightarrow> string \<Rightarrow> Filing list \<Rightarrow> SelectedFiling list" where
  "pushLatest p r el =
     (case find p el of None \<Rightarrow> [] | Some f \<Rightarrow> [\<lparr>filing = f, reason = r\<rparr>])"

text \<open>\<open>forEach((f, i) => push(...))\<close>, the index starting at \<open>i\<close>.\<close>

fun pushTop2 :: "nat \<Rightarrow> Filing list \<Rightarrow> SelectedFiling list" where
  "pushTop2 i [] = []"
| "pushTop2 i (f # fs) =
     \<lparr>filing = f, reason = ''10-Q (top 2) #'' @ showNat (i + 1)\<rparr> # pushTop2 (i + 1) fs"

definition pushAll :: "string \<Rightarrow> Filing list \<Rightarrow> SelectedFiling list" where
  "pushAll r fs = map (\<lambda>f. \<lparr>filing = f, reason = r\<rparr>) fs"

text \<open>The list \<open>sel\<close> as it stands before the final de-duplication, rule by rule.\<close>

definition sel ::
  "(rat \<Rightarrow> jsnum) \<Rightarrow> (jsnum \<Rightarrow> string) \<Rightarrow> (string \<Rightarrow> jsdate) \<Rightarrow> int \<Rightarrow>
   Filing list \<Rightarrow> jsnum \<Rightarrow> string option \<Rightarrow> SelectedFiling list" where
  "sel rnd str parse now filings daysBack asOf =
     (let el = eligible parse now asOf filings in
        pushLatest (\<lambda>f. normForm (form f) = ''10-K'') ''latest 10-K'' el
      @ pushTop2 0 (take 2 (filter (\<lambda>f. normForm (form f) = ''10-Q'') el))
      @ pushAll (''8-K within '' @ str daysBack @ ''d'')
          (filter (\<lambda>f. normForm (form f) = ''8-K'' \<and> withinWindow rnd parse now daysBack asOf f) el)
      @ pushLatest (\<lambda>f. isS3 (form f)) ''latest S-3/S-3A'' el
      @ pushLatest (\<lambda>f. isProspectus (form f)) ''latest 424B*'' el
      @ pushLatest (\<lambda>f. normForm (form f) = ''EFFECT'') ''latest EFFECT'' el
      @ pushLatest (\<lambda>f. isProxy (form f)) ''latest Proxy'' el
      @ pushLatest (\<lambda>f. normForm (form f) = ''S-8'') ''latest S-8'' el
      @ pushAll (''Form 4 within '' @ str daysBack @ ''d'')
          (filter (\<lambda>f. normForm (form f) = ''4'' \<and> withinWindow rnd parse now daysBack asOf f) el))"

text \<open>The closing \<open>filter\<close> with its \<open>seen\<close> set: the first entry of each accession number stays.\<close>

fun dedup :: "string set \<Rightarrow> SelectedFiling list \<Rightarrow> SelectedFiling list" where
  "dedup seen [] = []"
| "dedup seen (x # xs) =
     (if accessionNumber (filing x) \<in> seen then dedup seen xs
      else x # dedup (insert (accessionNumber (filing x)) seen) xs)"

definition pickFilingsPackWithReasons ::
  "(rat \<Rightarrow> jsnum) \<Rightarrow> (jsnum \<Rightarrow> string) \<Rightarrow> (string \<Rightarrow> jsdate) \<Rightarrow> int \<Rightarrow>
   Filing list \<Rightarrow> jsnum \<Rightarrow> string option \<Rightarrow> SelectedFiling list" where
  "pickFilingsPackWithReasons rnd str parse now filings daysBack asOf =
     dedup {} (sel rnd str parse now filings daysBack asOf)"

definition pickFilingsPack ::
  "(rat \<Rightarrow> jsnum) \<Rightarrow> (jsnum \<Rightarrow> string) \<Rightarrow> (string \<Rightarrow> jsdate) \<Rightarrow> int \<Rightarrow>
   Filing list \<Rightarrow> jsnum \<Rightarrow> string option \<Rightarrow> Filing list" where
  "pickFilingsPack rnd str parse now filings daysBack asOf =
     map filing (pickFilingsPackWithReasons rnd str parse now filings daysBack asOf)"

section \<open>CSV lines\<close>

text \<open>
  A cell is a string or a number. \<open>String(c)\<close> of a number is the runtime's number
  rendering, the parameter \<open>numToString\<close>.
\<close>

datatype 'n cell = CStr string | CNum 'n

fun cellString :: "('n \<Rightarrow> string) \<Rightarrow> 'n cell \<Rightarrow> string" where
  "cellString numToString (CStr s) = s"
| "cellString numToString (CNum n) = numToString n"

text \<open>\<open>Array.prototype.join\<close>.\<close>

fun join :: "string \<Rightarrow> string list \<Rightarrow> string" where
  "join sep [] = []"
| "join sep [x] = x"
| "join sep (x # y # ys) = x @ sep @ join sep (y # ys)"

definition needsQuote :: "string \<Rightarrow> bool" where
  "needsQuote v = (CHR 0x22 \<in> set v \<or> CHR '','' \<in> set v \<or> CHR 0x0A \<in> set v)"

definition escapeQuotes :: "string \<Rightarrow> string" where
  "escapeQuotes v = concat (map (\<lambda>c. if c = CHR 0x22 then [CHR 0x22, CHR 0x22] else [c]) v)"

definition csvCell :: "string \<Rightarrow> string" where
  "csvCell v = (if needsQuote v then [CHR 0x22] @ escapeQuotes v @ [CHR 0x22] else escapeQuotes v)"

definition toCsvLine :: "('n \<Rightarrow> string) \<Rightarrow> 'n cell list \<Rightarrow> string" where
  "toCsvLine numToString cells = join '','' (map (\<lambda>c. csvCell (cellString numToString c)) cells)"

text \<open>
  The reader of one CSV record under the standard rules: fields are separated by commas; a
  field that starts with a double quote runs to its closing double quote, a doubled double
  quote inside standing for one; a field that does not start with a double quote runs to
  the next comma and holds no double quote, no line feed and no carriage return (outside
  quotes either of the two ends the record, and one record is read here). A record always
  has at least one field, so the empty line is the record of one empty field. Anything
  else is malformed (\<open>None\<close>).
\<close>

datatype csvState = FieldStart | Unquoted | Quoted | QuoteSeen

fun parseCsv :: "csvState \<Rightarrow> string \<Rightarrow> string \<Rightarrow> string list option" where
  "parseCsv FieldStart cur [] = Some [cur]"
| "parseCsv Unquoted cur [] = Some [cur]"
| "parseCsv QuoteSeen cur [] = Some [cur]"
| "parseCsv Quoted cur [] = None"
| "parseCsv FieldStart cur (c # cs) =
     (if c = CHR 0x22 then parseCsv Quoted cur cs
      else if c = CHR '','' then map_option (Cons cur) (parseCsv FieldStart [] cs)
      else if c = CHR 0x0A \<or> c = CHR 0x0D then None
      else parseCsv Unquoted (cur @ [c]) cs)"
| "parseCsv Unquoted cur (c # cs) =
     (if c = CHR 0x22 \<or> c = CHR 0x0A \<or> c = CHR 0x0D then None
      else if c = CHR '','' then map_option (Cons cur) (parseCsv FieldStart [] cs)
      else parseCsv Unquoted (cur @ [c]) cs)"
| "parseCsv Quoted cur (c # cs) =
     (if c = CHR 0x22 then parseCsv QuoteSeen cur cs else parseCsv Quoted (cur @ [c]) cs)"
| "parseCsv QuoteSeen cur (c # cs) =
     (if c = CHR 0x22 then parseCsv Quoted (cur @ [CHR 0x22]) cs
      else if c = CHR '','' then map_option (Cons cur) (parseCsv FieldStart [] cs)
      else None)"

definition parseCsvLine :: "string \<Rightarrow> string list option" where
  "parseCsvLine s = parseCsv FieldStart [] s"

section \<open>Index documents\<close>

subsection \<open>Pattern matching\<close>

text \<open>
  The regular expressions of the source are matched by the functions below. A matcher
  looks at the text from one position on and gives the length of the match there together
  with what the caller keeps of it. \<open>firstMatch\<close> is \<open>String.prototype.match\<close> without the
  global flag (the leftmost match), \<open>matchAll\<close> the successive non-overlapping matches
  from left to right, and \<open>replaceAll\<close> is \<open>replace\<close> with the global flag. Under the flag
  \<open>i\<close> an ASCII letter matches in either case.
\<close>

definition ciPrefix :: "string \<Rightarrow> string \<Rightarrow> bool" where
  "ciPrefix p s = (map lowerChar (take (length p) s) = map lowerChar p)"

fun strIncludes :: "string \<Rightarrow> string \<Rightarrow> bool" where
  "strIncludes [] sub = (sub = [])"
| "strIncludes (c # cs) sub = (startsWith (c # cs) sub \<or> strIncludes cs sub)"

fun ciIncludes :: "string \<Rightarrow> string \<Rightarrow> bool" where
  "ciIncludes [] sub = (sub = [])"
| "ciIncludes (c # cs) sub = (ciPrefix sub (c # cs) \<or> ciIncludes cs sub)"

text \<open>The shortest prefix of the text that ends with the pattern: a lazy \<open>[\s\S]*?\<close> followed
  by a literal.\<close>

fun upTo :: "string \<Rightarrow> string \<Rightarrow> string option" where
  "upTo pat [] = (if pat = [] then Some [] else None)"
| "upTo pat (c # cs) =
     (if ciPrefix pat (c # cs) then Some (take (length pat) (c # cs))
      else map_option (Cons c) (upTo pat cs))"

fun firstMatch :: "(string \<Rightarrow> (nat \<times> 'a) option) \<Rightarrow> string \<Rightarrow> 'a option" where
  "firstMatch m [] = None"
| "firstMatch m (c # cs) =
     (case m (c # cs) of Some (n, r) \<Rightarrow> Some r | None \<Rightarrow> firstMatch m cs)"

fun matchAllFrom :: "(string \<Rightarrow> (nat \<times> 'a) option) \<Rightarrow> nat \<Rightarrow> string \<Rightarrow> 'a list" where
  "matchAllFrom m skip [] = []"
| "matchAllFrom m skip (c # cs) =
     (if skip > 0 then matchAllFrom m (skip - 1) cs
      else (case m (c # cs) of
              Some (n, r) \<Rightarrow> r # matchAllFrom m (n - 1) cs
            | None \<Rightarrow> matchAllFrom m 0 cs))"

definition matchAll :: "(string \<Rightarrow> (nat \<times> 'a) option) \<Rightarrow> string \<Rightarrow> 'a list" where
  "matchAll m s = matchAllFrom m 0 s"

fun replaceAllFrom :: "(string \<Rightarrow> nat option) \<Rightarrow> string \<Rightarrow> nat \<Rightarrow> string \<Rightarrow> string" where
  "replaceAllFrom m rep skip [] = []"
| "replaceAllFrom m rep skip (c # cs) =
     (if skip > 0 then replaceAllFrom m rep (skip - 1) cs
      else (case m (c # cs) of
              Some n \<Rightarrow> rep @ replaceAllFrom m rep (n - 1) cs
            | None \<Rightarrow> c # replaceAllFrom m rep 0 cs))"

definition replaceAll :: "(string \<Rightarrow> nat option) \<Rightarrow> string \<Rightarrow> string \<Rightarrow> string" where
  "replaceAll m rep s = replaceAllFrom m rep 0 s"

text \<open>A literal, case sensitive.\<close>

definition literal :: "string \<Rightarrow> string \<Rightarrow> nat option" where
  "literal p s = (if p \<noteq> [] \<and> startsWith s p then Some (length p) else None)"

text \<open>\<open>/<table[^>]*summary="Document Format Files"[\s\S]*?<\/table>/i\<close>: the greedy
  \<open>[^>]*\<close> gives back characters until the attribute and a closing tag follow.\<close>

definition summaryAttr :: string where
  "summaryAttr = ''summary='' @ [CHR 0x22] @ ''Document Format Files'' @ [CHR 0x22]"

definition summaryTable :: "string \<Rightarrow> (nat \<times> string) option" where
  "summaryTable s =
     (if ciPrefix ''<table'' s then
        (let body = drop 6 s;
             run = length (takeWhile (\<lambda>c. c \<noteq> CHR ''>'') body);
             ok = (\<lambda>k. ciPrefix summaryAttr (drop k body) \<and>
                        upTo ''</table>'' (drop (k + length summaryAttr) body) \<noteq> None)
         in case find ok (rev [0 ..< run + 1]) of
              None \<Rightarrow> None
            | Some k \<Rightarrow>
                (case upTo ''</table>'' (drop (k + length summaryAttr) body) of
                   None \<Rightarrow> None
                 | Some t \<Rightarrow>
                     (let m = take (6 + k + length summaryAttr) s @ t in Some (length m, m))))
      else None)"

text \<open>\<open>/<table[\s\S]*?<\/table>/gi\<close> and \<open>/<tr[\s\S]*?<\/tr>/gi\<close>.\<close>

definition element :: "string \<Rightarrow> string \<Rightarrow> string \<Rightarrow> (nat \<times> string) option" where
  "element opening closing s =
     (if ciPrefix opening s then
        (case upTo closing (drop (length opening) s) of
           None \<Rightarrow> None
         | Some t \<Rightarrow> (let m = take (length opening) s @ t in Some (length m, m)))
      else None)"

text \<open>\<open>/href="([^"]+)"/i\<close>, keeping the group.\<close>

definition hrefAttr :: "string \<Rightarrow> (nat \<times> string) option" where
  "hrefAttr s =
     (if ciPrefix (''href='' @ [CHR 0x22]) s then
        (let r = drop 6 s; v = takeWhile (\<lambda>c. c \<noteq> CHR 0x22) r
         in if v \<noteq> [] \<and> length v < length r then Some (6 + length v + 1, v) else None)
      else None)"

text \<open>\<open>/<td[^>]*>([\s\S]*?)<\/td>/gi\<close>, keeping the group.\<close>

definition tdCell :: "string \<Rightarrow> (nat \<times> string) option" where
  "tdCell s =
     (if ciPrefix ''<td'' s then
        (let r = drop 3 s;
             attrs = takeWhile (\<lambda>c. c \<noteq> CHR ''>'') r;
             r2 = drop (length attrs) r
         in case r2 of
              [] \<Rightarrow> None
            | g # r3 \<Rightarrow>
                (case upTo ''</td>'' r3 of
                   None \<Rightarrow> None
                 | Some t \<Rightarrow> Some (3 + length attrs + 1 + length t, take (length t - 5) t)))
      else None)"

text \<open>\<open>/<br\s*\/?>/gi\<close>, \<open>/<[^>]+>/g\<close> and \<open>/\s+/g\<close>.\<close>

definition brTag :: "string \<Rightarrow> nat option" where
  "brTag s =
     (if ciPrefix ''<br'' s then
        (let r = drop 3 s;
             ws = takeWhile isSpace r;
             r2 = drop (length ws) r;
             slash = (r2 \<noteq> [] \<and> hd r2 = CHR ''/'');
             r3 = (if slash then tl r2 else r2)
         in if r3 \<noteq> [] \<and> hd r3 = CHR ''>''
            then Some (3 + length ws + (if slash then 1 else 0) + 1) else None)
      else None)"

definition anyTag :: "string \<Rightarrow> nat option" where
  "anyTag s =
     (case s of [] \<Rightarrow> None
      | c # r \<Rightarrow>
          if c = CHR ''<'' then
            (let inner = takeWhile (\<lambda>c. c \<noteq> CHR ''>'') r
             in if inner \<noteq> [] \<and> length inner < length r then Some (1 + length inner + 1) else None)
          else None)"

definition spaces :: "string \<Rightarrow> nat option" where
  "spaces s = (let ws = takeWhile isSpace s in if ws = [] then None else Some (length ws))"

subsection \<open>Document rows\<close>

text \<open>\<open>a || b\<close> on strings: the empty string is falsy. An index beyond the array gives
  \<open>undefined\<close>, falsy as well.\<close>

definition orElse :: "string \<Rightarrow> string \<Rightarrow> string" where
  "orElse a b = (if a = [] then b else a)"

definition nthOr :: "string list \<Rightarrow> nat \<Rightarrow> string \<Rightarrow> string" where
  "nthOr xs i b = (if i < length xs then orElse (xs ! i) b else b)"

text \<open>\<open>href.split("/").pop()\<close>: what follows the last slash.\<close>

definition lastSegment :: "string \<Rightarrow> string" where
  "lastSegment s = rev (takeWhile (\<lambda>c. c \<noteq> CHR ''/'') (rev s))"

definition cleanCell :: "string \<Rightarrow> string" where
  "cleanCell m =
     trim (replaceAll spaces '' ''
       (replaceAll (literal ''&amp;'') ''&''
         (replaceAll (literal ''&nbsp;'') '' ''
           (replaceAll anyTag '' ''
             (replaceAll brTag '' '' m)))))"

definition contentToParse :: "string \<Rightarrow> string" where
  "contentToParse indexHtml =
     (case firstMatch summaryTable indexHtml of
        Some t \<Rightarrow> t
      | None \<Rightarrow>
          (case find (\<lambda>t. ciIncludes t ''Document Format Files'')
                  (matchAll (element ''<table'' ''</table>'') indexHtml) of
             Some t \<Rightarrow> t
           | None \<Rightarrow> indexHtml))"

definition rowsOf :: "string \<Rightarrow> string list" where
  "rowsOf indexHtml = matchAll (element ''<tr'' ''</tr>'') (contentToParse indexHtml)"

definition rowFilename :: "string \<Rightarrow> string" where
  "rowFilename row = lastSegment (case firstMatch hrefAttr row of Some h \<Rightarrow> h | None \<Rightarrow> [])"

definition rowTds :: "string \<Rightarrow> string list" where
  "rowTds row = map cleanCell (matchAll tdCell row)"

text \<open>The loop over the rows, \<open>docs\<close> being the array the loop pushes onto.\<close>

fun docsLoop :: "ExhibitDoc list \<Rightarrow> string list \<Rightarrow> ExhibitDoc list" where
  "docsLoop docs [] = docs"
| "docsLoop docs (row # rows) =
     (let filename = rowFilename row;
          tds = rowTds row
      in if filename = [] \<or> length tds < 4 then docsLoop docs rows
         else
           (let seq = nthOr tds 0 [];
                description = nthOr tds 1 [];
                type = nthOr tds 3 [];
                sizeText = nthOr tds 4 []
            in if type = [] \<or> type = ''Type'' then docsLoop docs rows
               else docsLoop (docs @ [\<lparr>seq = seq, description = description, type = type,
                                       filename = filename, sizeText = sizeText\<rparr>]) rows))"

definition getDocsFromIndexHtml :: "string \<Rightarrow> ExhibitDoc list" where
  "getDocsFromIndexHtml indexHtml = docsLoop [] (rowsOf indexHtml)"

section \<open>Exhibit types and sizes\<close>

definition isWordChar :: "char \<Rightarrow> bool" where
  "isWordChar c =
     (c \<in> set ''abcdefghijklmnopqrstuvwxyzABCDEFGHIJKLMNOPQRSTUVWXYZ0123456789_'')"

text \<open>The assertion \<open>\b\<close> after a digit: the text ends or goes on with a non-word character.\<close>

definition boundary :: "string \<Rightarrow> bool" where
  "boundary r = (case r of [] \<Rightarrow> True | c # _ \<Rightarrow> \<not> isWordChar c)"

text \<open>\<open>/^EX-(a|b|...)\b/i\<close>: some alternative matches at the start and a boundary follows it.\<close>

definition exhibitPrefix :: "string list \<Rightarrow> string \<Rightarrow> bool" where
  "exhibitPrefix alts t =
     list_ex (\<lambda>a. ciPrefix (''EX-'' @ a) t \<and> boundary (drop (3 + length a) t)) alts"

definition isHighSignalExhibitType :: "string \<Rightarrow> bool" where
  "isHighSignalExhibitType ty =
     exhibitPrefix [''10'', ''4'', ''99'', ''2'', ''16'', ''3'', ''1'', ''5'', ''23'', ''24'']
       (toUpperCase (trim ty))"

definition isJunkType :: "string \<Rightarrow> bool" where
  "isJunkType ty = exhibitPrefix [''101'', ''104''] (trim ty)"

text \<open>\<open>parseSize\<close>, with the runtime's \<open>parseFloat\<close> as the parameter \<open>pf\<close>.\<close>

definition parseSize :: "(string \<Rightarrow> jsnum) \<Rightarrow> string \<Rightarrow> jsnum" where
  "parseSize pf txt =
     (if txt = [] then Fin 0
      else
        (let s = filter (\<lambda>c. c \<noteq> CHR '','') (toUpperCase (trim txt));
             num = pf s
         in if num = NaN then Fin 0
            else if strIncludes s ''MB'' then jsMul (jsMul num (Fin 1024)) (Fin 1024)
            else if strIncludes s ''KB'' then jsMul num (Fin 1024)
            else num))"

section \<open>The pack request\<close>

text \<open>
  The query string is the list of its name and value pairs; \<open>searchParams.get\<close> gives the
  first value of a name, or \<open>null\<close>. \<open>Number(s)\<close> is the parameter \<open>num\<close>.
\<close>

record Response =
  status :: nat
  body :: string

record PackParams =
  reqTicker :: string
  reqDaysBack :: jsnum
  reqMaxEx :: jsnum
  reqMaxMb :: jsnum
  reqIncludeExhibits :: bool
  reqDeep :: bool
  reqAsOf :: "string option"
  reqAll :: bool
  reqMaxTotalBytes :: jsnum
  reqMaxPerFiling :: jsnum

definition parseBool :: "string option \<Rightarrow> bool \<Rightarrow> bool" where
  "parseBool v fallback =
     (case v of None \<Rightarrow> fallback
      | Some s \<Rightarrow> s = ''1'' \<or> toLowerCase s = ''true'' \<or> toLowerCase s = ''yes'')"

text \<open>\<open>p ? Number(p) : dflt\<close>: \<open>null\<close> and the empty string are falsy.\<close>

definition numberOr :: "(string \<Rightarrow> jsnum) \<Rightarrow> string option \<Rightarrow> jsnum \<Rightarrow> jsnum" where
  "numberOr num p dflt = (case p of None \<Rightarrow> dflt | Some s \<Rightarrow> if s = [] then dflt else num s)"

text \<open>The handler up to the point where it starts to fetch: a response, or the parameters of
  the run. \<open>userAgent\<close> is the environment variable \<open>SEC_USER_AGENT\<close>.\<close>

definition parseRequest ::
  "(string \<Rightarrow> jsnum) \<Rightarrow> string option \<Rightarrow> (string \<times> string) list \<Rightarrow> Response + PackParams" where
  "parseRequest num userAgent query =
     (let get = map_of query;
          tk = toUpperCase (trim (case get ''ticker'' of None \<Rightarrow> [] | Some t \<Rightarrow> t))
      in if tk = [] then Inl \<lparr>status = 400, body = ''Missing ticker''\<rparr>
      else
        (let days = numberOr num (get ''daysBack'') (Fin 365)
         in if days = NaN then
              Inl \<lparr>status = 400, body = ''Invalid daysBack parameter (must be a number)''\<rparr>
         else if jsLt days (Fin 30) \<or> jsGt days (Fin 730) then
              Inl \<lparr>status = 400, body = ''daysBack out of range (30-730)''\<rparr>
         else
           (let mx = numberOr num (get ''maxEx'') (Fin 25)
            in if mx = NaN then
                 Inl \<lparr>status = 400, body = ''Invalid maxEx parameter (must be a number)''\<rparr>
            else if jsLt mx (Fin 1) \<or> jsGt mx (Fin 100) then
                 Inl \<lparr>status = 400, body = ''maxEx out of range (1-100)''\<rparr>
            else
              (let mb = numberOr num (get ''maxMb'') (Fin 75)
               in if mb = NaN then
                    Inl \<lparr>status = 400, body = ''Invalid maxMb parameter (must be a number)''\<rparr>
               else if jsLt mb (Fin 5) \<or> jsGt mb (Fin 500) then
                    Inl \<lparr>status = 400, body = ''maxMb out of range (5-500)''\<rparr>
               else
                 (let ex = parseBool (get ''exhibits'') True;
                      dp = parseBool (get ''deep'') False;
                      al = parseBool (get ''all'') True
                  in if userAgent = None \<or> userAgent = Some [] then
                       Inl \<lparr>status = 500, body = ''Missing SEC_USER_AGENT in .env.local''\<rparr>
                     else
                       Inr \<lparr>reqTicker = tk, reqDaysBack = days, reqMaxEx = mx, reqMaxMb = mb,
                            reqIncludeExhibits = ex, reqDeep = dp, reqAsOf = get ''asOf'',
                            reqAll = al,
                            reqMaxTotalBytes = (if dp then PosInf
                                             else jsMul (jsMul mb (Fin 1024)) (Fin 1024)),
                            reqMaxPerFiling = (if dp then PosInf else mx)\<rparr>)))))"

section \<open>Building the pack\<close>

subsection \<open>Names and addresses\<close>

definition filingBasePath :: "string \<Rightarrow> Filing \<Rightarrow> string" where
  "filingBasePath cik10 f =
     ''https://www.sec.gov/Archives/edgar/data/''
     @ (case parseInt10 cik10 of None \<Rightarrow> ''NaN'' | Some n \<Rightarrow> showInt n)
     @ ''/'' @ filter (\<lambda>c. c \<noteq> CHR ''-'') (accessionNumber f)"

definition filingArchiveUrl :: "string \<Rightarrow> Filing \<Rightarrow> string" where
  "filingArchiveUrl cik10 f = filingBasePath cik10 f @ ''/'' @ primaryDocument f"

definition filingIndexUrl :: "string \<Rightarrow> Filing \<Rightarrow> string" where
  "filingIndexUrl cik10 f = filingBasePath cik10 f @ ''/'' @ accessionNumber f @ ''-index.html''"

definition safeChar :: "char \<Rightarrow> bool" where
  "safeChar c =
     (c \<in> set ''abcdefghijklmnopqrstuvwxyzABCDEFGHIJKLMNOPQRSTUVWXYZ0123456789._-'')"

text \<open>\<open>s.replace(/[^a-zA-Z0-9._-]+/g, "_")\<close>; the flag says that a run of replaced
  characters is under way.\<close>

fun safeNameFrom :: "bool \<Rightarrow> string \<Rightarrow> string" where
  "safeNameFrom run [] = []"
| "safeNameFrom run (c # cs) =
     (if safeChar c then c # safeNameFrom False cs
      else if run then safeNameFrom True cs
      else CHR ''_'' # safeNameFrom True cs)"

definition safeName :: "string \<Rightarrow> string" where
  "safeName s = safeNameFrom False s"

subsection \<open>State of a run\<close>

text \<open>
  The variables the handler updates while it walks the selected filings, together with the
  entries appended to the archive and the addresses requested so far. A download either
  gives the bytes of the document or fails; the outside world is the function \<open>net\<close> from
  the number of requests already made and the address to that outcome.
\<close>

record PackState =
  requests :: "string list"
  archive :: "(string \<times> string) list"
  inventoryLines :: "string list"
  skippedByCap :: "string list"
  skippedByFilter :: "string list"
  indexNotFound :: "string list"
  downloadedExhibits :: "string list"
  exhibitsBytesUsed :: nat

definition downloadAsBuffer ::
  "(nat \<Rightarrow> string \<Rightarrow> string option) \<Rightarrow> string \<Rightarrow> PackState \<Rightarrow> string option \<times> PackState" where
  "downloadAsBuffer net url s = (net (length (requests s)) url, s\<lparr>requests := requests s @ [url]\<rparr>)"

definition inventoryHeader :: string where
  "inventoryHeader =
     join '','' [''filingDate'', ''form'', ''accessionNumber'', ''docType'', ''filename'',
                ''sizeText'', ''description'', ''status'', ''reason'', ''url'']"

text \<open>One line of the inventory: the ten cells, all strings.\<close>

definition inventoryLine ::
  "Filing \<Rightarrow> string \<Rightarrow> string \<Rightarrow> string \<Rightarrow> string \<Rightarrow> string \<Rightarrow> string \<Rightarrow> string \<Rightarrow> string" where
  "inventoryLine f docType fname sz descr st why url =
     toCsvLine showInt
       (map CStr [filingDate f, form f, accessionNumber f, docType, fname, sz, descr, st, why, url])"

definition docLine :: "Filing \<Rightarrow> ExhibitDoc \<Rightarrow> string \<Rightarrow> string \<Rightarrow> string \<Rightarrow> string" where
  "docLine f d st why url =
     inventoryLine f (type d) (filename d) (orElse (sizeText d) []) (orElse (description d) [])
       st why url"

text \<open>The line of the exhibits report for a skipped document.\<close>

definition skipNote :: "Filing \<Rightarrow> ExhibitDoc \<Rightarrow> string \<Rightarrow> string" where
  "skipNote f d what =
     filingDate f @ '' '' @ form f @ '' '' @ accessionNumber f @ '' | '' @ type d @ '' | ''
     @ filename d @ '' | '' @ orElse (sizeText d) ''N/A'' @ '' | ''
     @ orElse (description d) ''No Desc'' @ '' | '' @ what"

definition skipByFilter ::
  "Filing \<Rightarrow> ExhibitDoc \<Rightarrow> string \<Rightarrow> string \<Rightarrow> string \<Rightarrow> PackState \<Rightarrow> PackState" where
  "skipByFilter f d what why url s =
     s\<lparr>skippedByFilter := skippedByFilter s @ [skipNote f d what],
       inventoryLines := inventoryLines s @ [docLine f d ''SKIPPED'' why url]\<rparr>"

definition skipByCap ::
  "Filing \<Rightarrow> ExhibitDoc \<Rightarrow> string \<Rightarrow> string \<Rightarrow> string \<Rightarrow> PackState \<Rightarrow> PackState" where
  "skipByCap f d what why url s =
     s\<lparr>skippedByCap := skippedByCap s @ [skipNote f d what],
       inventoryLines := inventoryLines s @ [docLine f d ''SKIPPED'' why url]\<rparr>"

subsection \<open>Ordering the documents of a filing\<close>

type_synonym scored = "ExhibitDoc \<times> int \<times> jsnum"

definition score :: "ExhibitDoc \<Rightarrow> int" where
  "score d = (if isHighSignalExhibitType (type d) then 3 else if isJunkType (type d) then 0 else 1)"

definition scoreDoc :: "(string \<Rightarrow> jsnum) \<Rightarrow> ExhibitDoc \<Rightarrow> scored" where
  "scoreDoc pf d = (d, score d, parseSize pf (orElse (sizeText d) []))"

text \<open>The comparator of the sort.\<close>

definition compareScored :: "scored \<Rightarrow> scored \<Rightarrow> jsnum" where
  "compareScored a b =
     (if fst (snd b) \<noteq> fst (snd a) then Fin (of_int (fst (snd b) - fst (snd a)))
      else jsSub (snd (snd a)) (snd (snd b)))"

text \<open>\<open>Array.prototype.sort\<close> is stable: \<open>a\<close> moves behind \<open>b\<close> only when the comparator is
  positive; NaN counts as zero.\<close>

fun insertScored :: "scored \<Rightarrow> scored list \<Rightarrow> scored list" where
  "insertScored a [] = [a]"
| "insertScored a (b # bs) =
     (if jsGt (compareScored a b) (Fin 0) then b # insertScored a bs else a # b # bs)"

fun sortScored :: "scored list \<Rightarrow> scored list" where
  "sortScored [] = []"
| "sortScored (a # as) = insertScored a (sortScored as)"

definition scoredDocs :: "(string \<Rightarrow> jsnum) \<Rightarrow> ExhibitDoc list \<Rightarrow> ExhibitDoc list" where
  "scoredDocs pf docs = map fst (sortScored (map (scoreDoc pf) docs))"

subsection \<open>The exhibits of one filing\<close>

text \<open>
  One turn of the loop over the ordered documents. The state is paired with
  \<open>downloadedCount\<close>, the counter of the filing at hand. Byte counts and counters are natural
  numbers; the caps are numbers and may be infinite.
\<close>

definition exhibitStep ::
  "(nat \<Rightarrow> string \<Rightarrow> string option) \<Rightarrow> PackParams \<Rightarrow> Filing \<Rightarrow> string \<Rightarrow> ExhibitDoc
     \<Rightarrow> PackState \<times> nat \<Rightarrow> PackState \<times> nat" where
  "exhibitStep net p f base d st =
     (let s = fst st; downloadedCount = snd st in
      if filename d = [] \<or> type d = [] then (s, downloadedCount)
      else
        (let exUrl = base @ ''/'' @ filename d in
         if isJunkType (type d) then
           (skipByFilter f d ''skipped (XBRL noise)'' ''junk (XBRL noise)'' exUrl s, downloadedCount)
         else if \<not> reqDeep p \<and> \<not> isHighSignalExhibitType (type d) then
           (skipByFilter f d ''skipped (not high-signal)'' ''not high-signal (non-deep mode)'' exUrl s,
            downloadedCount)
         else if \<not> reqDeep p \<and> jsGe (ofNat downloadedCount) (reqMaxPerFiling p) then
           (skipByCap f d ''skipped (maxExPerFiling cap)'' ''cap: maxExPerFiling'' exUrl s,
            downloadedCount)
         else if \<not> reqDeep p \<and> jsGe (ofNat (exhibitsBytesUsed s)) (reqMaxTotalBytes p) then
           (skipByCap f d ''skipped (maxTotalMB cap)'' ''cap: maxTotalMB'' exUrl s, downloadedCount)
         else
           (case downloadAsBuffer net exUrl s of
              (None, s1) \<Rightarrow>
                (skipByFilter f d ''skipped (download failed)'' ''download failed'' exUrl s1,
                 downloadedCount)
            | (Some exBuf, s1) \<Rightarrow>
                if \<not> reqDeep p \<and>
                   jsGt (ofNat (exhibitsBytesUsed s1 + length exBuf)) (reqMaxTotalBytes p) then
                  (skipByCap f d ''skipped (would exceed maxTotalMB cap)''
                     ''cap: would exceed maxTotalMB'' exUrl s1, downloadedCount)
                else
                  (s1\<lparr>exhibitsBytesUsed := exhibitsBytesUsed s1 + length exBuf,
                      downloadedExhibits := downloadedExhibits s1
                        @ [filingDate f @ '' '' @ form f @ '' '' @ accessionNumber f @ '' | ''
                           @ type d @ '' | '' @ filename d],
                      archive := archive s1
                        @ [(''exhibits/''
                            @ safeName (map (\<lambda>c. if c = CHR ''.'' then CHR ''_'' else c) (type d))
                            @ ''/''
                            @ safeName (filingDate f @ ''__'' @ form f @ ''__'' @ accessionNumber f
                                        @ ''__'' @ type d @ ''__'' @ filename d),
                            exBuf)],
                      inventoryLines := inventoryLines s1 @ [docLine f d ''DOWNLOADED'' [] exUrl]\<rparr>,
                   downloadedCount + 1))))"

fun exhibitsLoop ::
  "(nat \<Rightarrow> string \<Rightarrow> string option) \<Rightarrow> PackParams \<Rightarrow> Filing \<Rightarrow> string \<Rightarrow> ExhibitDoc list
     \<Rightarrow> PackState \<times> nat \<Rightarrow> PackState \<times> nat" where
  "exhibitsLoop net p f base [] st = st"
| "exhibitsLoop net p f base (d # ds) st =
     exhibitsLoop net p f base ds (exhibitStep net p f base d st)"

text \<open>With exhibits disabled every document is listed as skipped, in the order of the index.\<close>

fun disabledLoop :: "Filing \<Rightarrow> string \<Rightarrow> ExhibitDoc list \<Rightarrow> PackState \<Rightarrow> PackState" where
  "disabledLoop f base [] s = s"
| "disabledLoop f base (d # ds) s =
     disabledLoop f base ds
       (s\<lparr>inventoryLines := inventoryLines s
            @ [docLine f d ''SKIPPED'' ''exhibits disabled'' (base @ ''/'' @ filename d)]\<rparr>)"

subsection \<open>The loop over the selected filings\<close>

text \<open>
  A failed download of a filing's main document is not caught inside the loop: the handler
  answers 500 and the run ends there. The failure is returned with the state reached. The
  bytes of an index document are read as its text. \<open>enumerateDocs\<close> is the part of the
  loop body that follows the archiving of the index page.
\<close>

datatype failure = DownloadFailed string

definition enumerateDocs ::
  "(nat \<Rightarrow> string \<Rightarrow> string option) \<Rightarrow> (string \<Rightarrow> jsnum) \<Rightarrow> PackParams \<Rightarrow> string \<Rightarrow> Filing
     \<Rightarrow> string \<Rightarrow> PackState \<Rightarrow> PackState" where
  "enumerateDocs net pf p cik10 f idxBuf s4 =
     (let docs = getDocsFromIndexHtml idxBuf;
          base = filingBasePath cik10 f;
          s5 = (if docs = [] then
                  s4\<lparr>inventoryLines := inventoryLines s4
                       @ [inventoryLine f [] [] [] [] ''SKIPPED''
                            ''index parsed but no docs rows found (parser/table variance)''
                            (filingIndexUrl cik10 f)]\<rparr>
                else s4)
      in if \<not> reqIncludeExhibits p then disabledLoop f base docs s5
         else fst (exhibitsLoop net p f base (scoredDocs pf docs) (s5, 0)))"

definition processFiling ::
  "(nat \<Rightarrow> string \<Rightarrow> string option) \<Rightarrow> (string \<Rightarrow> jsnum) \<Rightarrow> PackParams \<Rightarrow> string \<Rightarrow> Filing
     \<Rightarrow> PackState \<Rightarrow> failure option \<times> PackState" where
  "processFiling net pf p cik10 f s =
     (case downloadAsBuffer net (filingArchiveUrl cik10 f) s of
        (None, s1) \<Rightarrow> (Some (DownloadFailed (filingArchiveUrl cik10 f)), s1)
      | (Some mainBuf, s1) \<Rightarrow>
          (let s2 = s1\<lparr>archive := archive s1
                      @ [(''filings/''
                          @ safeName (filingDate f @ ''__'' @ form f @ ''__'' @ accessionNumber f
                                      @ ''__'' @ primaryDocument f),
                          mainBuf)]\<rparr>;
               idxUrl = filingIndexUrl cik10 f
           in case downloadAsBuffer net idxUrl s2 of
                (None, s3) \<Rightarrow>
                  (None,
                   s3\<lparr>indexNotFound := indexNotFound s3
                         @ [filingDate f @ '' '' @ form f @ '' '' @ accessionNumber f],
                      inventoryLines := inventoryLines s3
                         @ [inventoryLine f [] [] [] [] ''SKIPPED''
                              ''index not found (cannot enumerate docs)'' idxUrl]\<rparr>)
              | (Some idxBuf, s3) \<Rightarrow>
                  (None,
                   enumerateDocs net pf p cik10 f idxBuf
                     (s3\<lparr>archive := archive s3
                          @ [(''indexes/''
                              @ safeName (filingDate f @ ''__'' @ form f @ ''__''
                                          @ accessionNumber f @ ''__INDEX.html''),
                              idxBuf)]\<rparr>))))"

fun processFilings ::
  "(nat \<Rightarrow> string \<Rightarrow> string option) \<Rightarrow> (string \<Rightarrow> jsnum) \<Rightarrow> PackParams \<Rightarrow> string \<Rightarrow> Filing list
     \<Rightarrow> PackState \<Rightarrow> failure option \<times> PackState" where
  "processFilings net pf p cik10 [] s = (None, s)"
| "processFilings net pf p cik10 (f # fs) s =
     (case processFiling net pf p cik10 f s of
        (Some e, s') \<Rightarrow> (Some e, s')
      | (None, s') \<Rightarrow> processFilings net pf p cik10 fs s')"

text \<open>The state in which the loop starts: only the header line in the inventory, nothing
  counted yet. \<open>rs\<close> are the requests made and \<open>ar\<close> the archive entries appended before.\<close>

definition startState :: "string list \<Rightarrow> (string \<times> string) list \<Rightarrow> PackState" where
  "startState rs ar =
     \<lparr>requests = rs, archive = ar, inventoryLines = [inventoryHeader], skippedByCap = [],
      skippedByFilter = [], indexNotFound = [], downloadedExhibits = [], exhibitsBytesUsed = 0\<rparr>"

text \<open>After the loop: the inventory and the exhibits report go into the archive.\<close>

definition reportLines :: "PackState \<Rightarrow> string list" where
  "reportLines s =
     [''Downloaded exhibits total bytes: '' @ showNat (exhibitsBytesUsed s), []]
     @ (if indexNotFound s \<noteq> [] then
          [''INDEX NOT FOUND (could not enumerate exhibits):'']
          @ map (\<lambda>x. ''- '' @ x) (indexNotFound s) @ [[]]
        else [])
     @ (if skippedByCap s \<noteq> [] then
          [''EXHIBITS SKIPPED (CAPS):''] @ map (\<lambda>x. ''- '' @ x) (skippedByCap s) @ [[]]
        else [])
     @ (if skippedByFilter s \<noteq> [] then
          [''EXHIBITS SKIPPED (FILTER / OTHER):'']
          @ map (\<lambda>x. ''- '' @ x) (skippedByFilter s) @ [[]]
        else [])"

definition finishPack :: "PackState \<Rightarrow> PackState" where
  "finishPack s =
     s\<lparr>archive := archive s
          @ [(''DOCS_INVENTORY.csv'', join [CHR 0x0A] (inventoryLines s)),
             (''EXHIBITS_REPORT.txt'', join [CHR 0x0A] (reportLines s))]\<rparr>"

text \<open>The bytes of the exhibits in the archive.\<close>

definition exhibitBytes :: "PackState \<Rightarrow> nat" where
  "exhibitBytes s =
     sum_list (map (\<lambda>e. length (snd e)) (filter (\<lambda>e. startsWith (fst e) ''exhibits/'') (archive s)))"

text \<open>What the loop over the documents of a filing has requested, archived and counted.\<close>

definition fetched ::
  "PackState \<times> nat \<Rightarrow> string list \<times> (string \<times> string) list \<times> nat \<times> string list \<times> nat" where
  "fetched st =
     (requests (fst st), archive (fst st), exhibitsBytesUsed (fst st),
      downloadedExhibits (fst st), snd st)"

text \<open>The tag and the reason of an inventory line, as the specification asks for them:
  downloaded, or skipped with a reason that is not empty.\<close>

definition auditEntry :: "string \<Rightarrow> string \<Rightarrow> bool" where
  "auditEntry tag why =
     ((tag = ''DOWNLOADED'' \<and> why = []) \<or> (tag = ''SKIPPED'' \<and> why \<noteq> []))"

section \<open>Concrete inputs\<close>

text \<open>A filing history with one annual report, two quarterly reports and a current-events
  report dated after the reference date.\<close>

definition exFilings :: "Filing list" where
  "exFilings =
     [\<lparr>form = ''8-K'', accessionNumber = ''0001-25-000009'', filingDate = ''2025-06-01'',
        primaryDocument = ''e.htm''\<rparr>,
      \<lparr>form = ''10-Q'', accessionNumber = ''0001-23-000007'', filingDate = ''2023-11-01'',
        primaryDocument = ''q3.htm''\<rparr>,
      \<lparr>form = ''10-Q'', accessionNumber = ''0001-23-000005'', filingDate = ''2023-08-01'',
        primaryDocument = ''q2.htm''\<rparr>,
      \<lparr>form = ''10-K'', accessionNumber = ''0001-23-000001'', filingDate = ''2023-01-01'',
        primaryDocument = ''k.htm''\<rparr>]"

text \<open>Current-events reports 15 and 40 days before 2024-03-01, the first listed twice.\<close>

definition exWindowFilings :: "Filing list" where
  "exWindowFilings =
     [\<lparr>form = ''8-K'', accessionNumber = ''0001-24-000002'', filingDate = ''2024-02-15'',
        primaryDocument = ''a.htm''\<rparr>,
      \<lparr>form = '' 8-k'', accessionNumber = ''0001-24-000001'', filingDate = ''2024-01-21'',
        primaryDocument = ''b.htm''\<rparr>,
      \<lparr>form = ''8-K'', accessionNumber = ''0001-24-000002'', filingDate = ''2024-02-15'',
        primaryDocument = ''a.htm''\<rparr>]"

text \<open>A filing with an index page of three exhibits, the world that serves its documents,
  and parameters with a total cap of ten bytes (non-deep) and without caps (deep).\<close>

definition exFiling :: Filing where
  "exFiling = \<lparr>form = ''8-K'', accessionNumber = ''0001-24-000002'', filingDate = ''2024-02-15'',
                primaryDocument = ''a.htm''\<rparr>"

definition exIndexHtml :: string where
  "exIndexHtml =
     ''<table class=x '' @ summaryAttr @ ''>''
     @ ''<tr><th>Seq</th><th>Description</th><th>Document</th><th>Type</th><th>Size</th></tr>''
     @ ''<tr><td>1</td><td>XBRL</td><td><a href='' @ [CHR 0x22] @ ''/d/x101.xml'' @ [CHR 0x22]
     @ ''>x101.xml</a></td><td>EX-101.INS</td><td>500 KB</td></tr>''
     @ ''<tr><td>2</td><td>Press release</td><td><a href='' @ [CHR 0x22] @ ''/d/ex99.htm'' @ [CHR 0x22]
     @ ''>ex99.htm</a></td><td>EX-99.1</td><td>2000 KB</td></tr>''
     @ ''<tr><td>3</td><td>Contract</td><td><a href='' @ [CHR 0x22] @ ''/d/ex10.htm'' @ [CHR 0x22]
     @ ''>ex10.htm</a></td><td>EX-10.1</td><td>50 KB</td></tr>''
     @ ''</table>''"

definition exBase :: string where
  "exBase = ''https://www.sec.gov/Archives/edgar/data/320193/000124000002''"

definition exNet :: "nat \<Rightarrow> string \<Rightarrow> string option" where
  "exNet n url =
     map_of [(exBase @ ''/a.htm'', ''main''),
             (exBase @ ''/0001-24-000002-index.html'', exIndexHtml),
             (exBase @ ''/ex10.htm'', ''0123456''),
             (exBase @ ''/ex99.htm'', ''01234567''),
             (exBase @ ''/x101.xml'', ''<xbrl/>'')] url"

definition exCap :: PackParams where
  "exCap = \<lparr>reqTicker = ''AAPL'', reqDaysBack = Fin 365, reqMaxEx = Fin 25, reqMaxMb = Fin 75,
             reqIncludeExhibits = True, reqDeep = False, reqAsOf = None, reqAll = True,
             reqMaxTotalBytes = Fin 10, reqMaxPerFiling = Fin 25\<rparr>"

definition exDeep :: PackParams where
  "exDeep = \<lparr>reqTicker = ''AAPL'', reqDaysBack = Fin 365, reqMaxEx = Fin 25, reqMaxMb = Fin 75,
              reqIncludeExhibits = True, reqDeep = True, reqAsOf = None, reqAll = True,
              reqMaxTotalBytes = PosInf, reqMaxPerFiling = PosInf\<rparr>"

definition exDoc10 :: ExhibitDoc where
  "exDoc10 = \<lparr>seq = ''3'', description = ''Contract'', type = ''EX-10.1'',
               filename = ''ex10.htm'', sizeText = ''50 KB''\<rparr>"

definition exDoc99 :: ExhibitDoc where
  "exDoc99 = \<lparr>seq = ''2'', description = ''Press release'', type = ''EX-99.1'',
               filename = ''ex99.htm'', sizeText = ''2000 KB''\<rparr>"

definition exDoc101 :: ExhibitDoc where
  "exDoc101 = \<lparr>seq = ''1'', description = ''XBRL'', type = ''EX-101.INS'',
                filename = ''x101.xml'', sizeText = ''500 KB''\<rparr>"

text \<open>A request that spells out its three numeric parameters.\<close>

definition exQuery :: "(string \<times> string) list" where
  "exQuery = [(''ticker'', ''aapl''), (''daysBack'', ''30''), (''maxEx'', ''2''), (''maxMb'', ''5'')]"


section \<open>Properties of the filing selection\<close>

subsection \<open>The de-duplication and the rules\<close>

lemma set_dedup: "set (dedup seen xs) \<subseteq> set xs"
  by (induction xs arbitrary: seen) auto

lemma dedup_fresh: "y \<in> set (dedup seen xs) \<Longrightarrow> accessionNumber (filing y) \<notin> seen"
  by (induction xs arbitrary: seen) (auto split: if_splits)

lemma dedup_distinct: "distinct (map (accessionNumber \<circ> filing) (dedup seen xs))"
proof (induction xs arbitrary: seen)
  case Nil
  then show ?case by simp
next
  case (Cons x xs)
  show ?case
  proof (cases "accessionNumber (filing x) \<in> seen")
    case True
    then show ?thesis using Cons.IH by simp
  next
    case False
    have "accessionNumber (filing x) \<notin> (accessionNumber \<circ> filing) ` set (dedup (insert (accessionNumber (filing x)) seen) xs)"
      using dedup_fresh by fastforce
    then show ?thesis using False Cons.IH by simp
  qed
qed

lemma dedup_find:
  "a \<notin> seen \<Longrightarrow> find (\<lambda>y. accessionNumber (filing y) = a) (dedup seen xs)
       = find (\<lambda>y. accessionNumber (filing y) = a) xs"
  by (induction xs arbitrary: seen) auto

lemma find_in_set: "find p xs = Some y \<Longrightarrow> y \<in> set xs \<and> p y"
  by (induction xs) (auto split: if_splits)


lemma pushLatest_set: "x \<in> set (pushLatest p r el) \<Longrightarrow> filing x \<in> set el \<and> p (filing x) \<and> reason x = r"
  by (auto simp: pushLatest_def split: option.splits dest: find_in_set[OF sym])

lemma pushTop2_set: "x \<in> set (pushTop2 i fs) \<Longrightarrow> filing x \<in> set fs"
  by (induction i fs rule: pushTop2.induct) auto

lemma pushAll_set: "x \<in> set (pushAll r fs) \<longleftrightarrow> (filing x \<in> set fs \<and> reason x = r)"
  by (cases x) (auto simp: pushAll_def image_iff)

lemma top2_set:
  "x \<in> set (pushTop2 i (take n (filter p el))) \<Longrightarrow> filing x \<in> set el \<and> p (filing x)"
  using pushTop2_set[of x i "take n (filter p el)"] in_set_takeD[of "filing x" n "filter p el"]
  by auto

lemma sel_eligible:
  assumes "x \<in> set (sel rnd str parse now filings daysBack asOf)"
  shows "filing x \<in> set (eligible parse now asOf filings)"
  using assms unfolding sel_def Let_def
  by (auto dest: pushLatest_set top2_set simp: pushAll_set)

lemma pick_eligible:
  assumes "x \<in> set (pickFilingsPackWithReasons rnd str parse now filings daysBack asOf)"
  shows "filing x \<in> set (eligible parse now asOf filings)"
  using assms set_dedup sel_eligible unfolding pickFilingsPackWithReasons_def by blast

lemma sel_find_pick:
  "find (\<lambda>y. accessionNumber (filing y) = a) (pickFilingsPackWithReasons rnd str parse now filings daysBack asOf)
   = find (\<lambda>y. accessionNumber (filing y) = a) (sel rnd str parse now filings daysBack asOf)"
  unfolding pickFilingsPackWithReasons_def by (rule dedup_find) simp






subsection \<open>The point-in-time boundary\<close>

text \<open>
  Claim C1. Whatever the filings, the window and the reference date, every entry that
  \<open>pickFilingsPackWithReasons\<close> returns has a valid filing date that is not after the
  reference instant: not after the clock's \<open>now\<close> when \<open>asOf\<close> is absent (or empty), and
  not after the parsed \<open>asOf\<close>, which is then itself a valid date, otherwise. The theorem holds
  for every date parser and every clock value.
\<close>

theorem C1_selected_on_or_before_asOf:
  assumes "x \<in> set (pickFilingsPackWithReasons rnd str parse now filings daysBack asOf)"
  shows "\<exists>d. parse (filingDate (filing x)) = Some d \<and>
           (case asOf of None \<Rightarrow> d \<le> now
            | Some s \<Rightarrow> if s = [] then d \<le> now else (\<exists>a. parse s = Some a \<and> d \<le> a))"
proof -
  have "onOrBefore parse now asOf (filing x)"
    using pick_eligible[OF assms] by (simp add: eligible_def)
  then show ?thesis
    by (auto simp: onOrBefore_def dateLe_def asOfDate_def split: option.splits)
qed

text \<open>The history of the specification's scenario, as of 2024-01-01: the annual report of
  2023-01-01 is selected and is dated on or before the reference date.\<close>

theorem C1_selected_on_or_before_asOf_witness:
  "\<lparr>filing = \<lparr>form = ''10-K'', accessionNumber = ''0001-23-000001'', filingDate = ''2023-01-01'',
               primaryDocument = ''k.htm''\<rparr>, reason = ''latest 10-K''\<rparr>
     \<in> set (pickFilingsPackWithReasons Fin showNumber isoDate 0 exFilings (Fin 365) (Some ''2024-01-01'')) \<and>
   (\<exists>d a. isoDate ''2023-01-01'' = Some d \<and> isoDate ''2024-01-01'' = Some a \<and> d \<le> a)"
proof -
  have h: "\<lparr>filing = \<lparr>form = ''10-K'', accessionNumber = ''0001-23-000001'', filingDate = ''2023-01-01'',
               primaryDocument = ''k.htm''\<rparr>, reason = ''latest 10-K''\<rparr>
     \<in> set (pickFilingsPackWithReasons Fin showNumber isoDate 0 exFilings (Fin 365) (Some ''2024-01-01''))"
    by code_simp
  from C1_selected_on_or_before_asOf[OF h] h show ?thesis by auto
qed

subsection \<open>No duplicate accession numbers\<close>

text \<open>
  Claim C4. The result holds no two entries with the same accession number, and for every
  entry that some rule pushed onto \<open>sel\<close>, the result holds its accession number exactly
  once, namely as the first entry of \<open>sel\<close> with that accession number: the entry of the
  first rule, in the order the rules are applied, that claimed it.
\<close>

theorem C4_no_duplicate_accession:
  "distinct (map (accessionNumber \<circ> filing) (pickFilingsPackWithReasons rnd str parse now filings daysBack asOf)) \<and>
   (\<forall>x \<in> set (sel rnd str parse now filings daysBack asOf).
      \<exists>y. find (\<lambda>y. accessionNumber (filing y) = accessionNumber (filing x))
             (sel rnd str parse now filings daysBack asOf) = Some y \<and>
          find (\<lambda>y. accessionNumber (filing y) = accessionNumber (filing x))
             (pickFilingsPackWithReasons rnd str parse now filings daysBack asOf) = Some y)"
proof (intro conjI ballI)
  show "distinct (map (accessionNumber \<circ> filing) (pickFilingsPackWithReasons rnd str parse now filings daysBack asOf))"
    unfolding pickFilingsPackWithReasons_def by (rule dedup_distinct)
next
  fix x assume x: "x \<in> set (sel rnd str parse now filings daysBack asOf)"
  let ?p = "\<lambda>y. accessionNumber (filing y) = accessionNumber (filing x)"
  from x have "find ?p (sel rnd str parse now filings daysBack asOf) \<noteq> None"
    by (auto simp: find_None_iff)
  then obtain y where "find ?p (sel rnd str parse now filings daysBack asOf) = Some y" by auto
  then show "\<exists>y. find ?p (sel rnd str parse now filings daysBack asOf) = Some y \<and>
          find ?p (pickFilingsPackWithReasons rnd str parse now filings daysBack asOf) = Some y"
    using sel_find_pick[of "accessionNumber (filing x)"] by simp
qed

text \<open>A history that lists one current-events report twice: \<open>sel\<close> holds two entries, the
  result is duplicate free and its entry for the accession number is the first one.\<close>

theorem C4_no_duplicate_accession_witness:
  "distinct (map (accessionNumber \<circ> filing)
      (pickFilingsPackWithReasons Fin showNumber isoDate 0 exWindowFilings (Fin 30) (Some ''2024-03-01''))) \<and>
   length (sel Fin showNumber isoDate 0 exWindowFilings (Fin 30) (Some ''2024-03-01'')) = 2 \<and>
   find (\<lambda>y. accessionNumber (filing y) = ''0001-24-000002'')
      (pickFilingsPackWithReasons Fin showNumber isoDate 0 exWindowFilings (Fin 30) (Some ''2024-03-01''))
     = Some \<lparr>filing = \<lparr>form = ''8-K'', accessionNumber = ''0001-24-000002'',
                 filingDate = ''2024-02-15'', primaryDocument = ''a.htm''\<rparr>,
              reason = ''8-K within 30d''\<rparr>"
proof -
  let ?e = "\<lparr>filing = \<lparr>form = ''8-K'', accessionNumber = ''0001-24-000002'',
                 filingDate = ''2024-02-15'', primaryDocument = ''a.htm''\<rparr>,
              reason = ''8-K within 30d''\<rparr>"
  have s: "sel Fin showNumber isoDate 0 exWindowFilings (Fin 30) (Some ''2024-03-01'') = [?e, ?e]"
    by code_simp
  have m: "?e \<in> set (sel Fin showNumber isoDate 0 exWindowFilings (Fin 30) (Some ''2024-03-01''))"
    unfolding s by simp
  have f: "find (\<lambda>y. accessionNumber (filing y) = accessionNumber (filing ?e))
             (sel Fin showNumber isoDate 0 exWindowFilings (Fin 30) (Some ''2024-03-01'')) = Some ?e"
    unfolding s by simp
  note c4 = C4_no_duplicate_accession[of Fin showNumber isoDate 0 exWindowFilings "Fin 30" "Some ''2024-03-01''"]
  from c4 have d: "distinct (map (accessionNumber \<circ> filing)
      (pickFilingsPackWithReasons Fin showNumber isoDate 0 exWindowFilings (Fin 30) (Some ''2024-03-01'')))" by (rule conjunct1)
  from c4 m obtain y where
    "find (\<lambda>y. accessionNumber (filing y) = accessionNumber (filing ?e))
             (sel Fin showNumber isoDate 0 exWindowFilings (Fin 30) (Some ''2024-03-01'')) = Some y"
    "find (\<lambda>y. accessionNumber (filing y) = accessionNumber (filing ?e))
             (pickFilingsPackWithReasons Fin showNumber isoDate 0 exWindowFilings (Fin 30) (Some ''2024-03-01'')) = Some y"
    by blast
  with f have "find (\<lambda>y. accessionNumber (filing y) = accessionNumber (filing ?e))
             (pickFilingsPackWithReasons Fin showNumber isoDate 0 exWindowFilings (Fin 30) (Some ''2024-03-01'')) = Some ?e"
    by simp
  with d s show ?thesis by simp
qed

subsection \<open>The window rule for current-events reports\<close>








section \<open>Properties of the CSV rendering\<close>

lemma join_Cons: "join sep (x # xs) = (if xs = [] then x else x @ sep @ join sep xs)"
  by (cases xs) auto

lemma parse_unquoted:
  assumes "CHR 0x22 \<notin> set v" "CHR '','' \<notin> set v" "CHR 0x0A \<notin> set v" "CHR 0x0D \<notin> set v"
  shows "parseCsv Unquoted cur v = Some [cur @ v]"
    and "parseCsv Unquoted cur (v @ CHR '','' # rest)
           = map_option (Cons (cur @ v)) (parseCsv FieldStart [] rest)"
  using assms by (induction v arbitrary: cur) auto

lemma parse_quoted:
  "parseCsv Quoted cur (escapeQuotes v @ [CHR 0x22]) = Some [cur @ v]"
  "parseCsv Quoted cur (escapeQuotes v @ CHR 0x22 # CHR '','' # rest)
     = map_option (Cons (cur @ v)) (parseCsv FieldStart [] rest)"
  by (induction v arbitrary: cur) (auto simp: escapeQuotes_def)

lemma escapeQuotes_plain: "CHR 0x22 \<notin> set v \<Longrightarrow> escapeQuotes v = v"
  by (induction v) (auto simp: escapeQuotes_def)

lemma parse_cell_last:
  assumes "CHR 0x0D \<in> set v \<longrightarrow> needsQuote v"
  shows "parseCsv FieldStart [] (csvCell v) = Some [v]"
proof (cases "needsQuote v")
  case True
  then show ?thesis using parse_quoted(1)[of "[]" v] by (simp add: csvCell_def)
next
  case False
  then have nq: "CHR 0x22 \<notin> set v" "CHR '','' \<notin> set v" "CHR 0x0A \<notin> set v" "CHR 0x0D \<notin> set v"
    using assms by (auto simp: needsQuote_def)
  show ?thesis
  proof (cases v)
    case Nil
    then show ?thesis by (simp add: csvCell_def needsQuote_def escapeQuotes_def)
  next
    case (Cons c cs)
    with nq have "parseCsv FieldStart [] v = parseCsv Unquoted [c] cs" by auto
    also have "\<dots> = Some [[c] @ cs]" using nq Cons by (intro parse_unquoted(1)) auto
    finally show ?thesis using False nq Cons by (simp add: csvCell_def escapeQuotes_plain)
  qed
qed

lemma parse_cell_then:
  assumes "CHR 0x0D \<in> set v \<longrightarrow> needsQuote v"
  shows "parseCsv FieldStart [] (csvCell v @ CHR '','' # rest)
     = map_option (Cons v) (parseCsv FieldStart [] rest)"
proof (cases "needsQuote v")
  case True
  then show ?thesis using parse_quoted(2)[of "[]" v rest] by (simp add: csvCell_def)
next
  case False
  then have nq: "CHR 0x22 \<notin> set v" "CHR '','' \<notin> set v" "CHR 0x0A \<notin> set v" "CHR 0x0D \<notin> set v"
    using assms by (auto simp: needsQuote_def)
  show ?thesis
  proof (cases v)
    case Nil
    then show ?thesis by (simp add: csvCell_def needsQuote_def escapeQuotes_def)
  next
    case (Cons c cs)
    with nq have "parseCsv FieldStart [] (v @ CHR '','' # rest)
                    = parseCsv Unquoted [c] (cs @ CHR '','' # rest)" by auto
    also have "\<dots> = map_option (Cons ([c] @ cs)) (parseCsv FieldStart [] rest)"
      using nq Cons by (intro parse_unquoted(2)) auto
    finally show ?thesis using False nq Cons by (simp add: csvCell_def escapeQuotes_plain)
  qed
qed

lemma parse_join:
  "vs \<noteq> [] \<Longrightarrow> \<forall>v \<in> set vs. CHR 0x0D \<in> set v \<longrightarrow> needsQuote v \<Longrightarrow>
     parseCsv FieldStart [] (join '','' (map csvCell vs)) = Some vs"
proof (induction vs)
  case Nil
  then show ?case by simp
next
  case (Cons v vs)
  from Cons.prems(2) have v: "CHR 0x0D \<in> set v \<longrightarrow> needsQuote v"
    and vs: "\<forall>v \<in> set vs. CHR 0x0D \<in> set v \<longrightarrow> needsQuote v" by simp_all
  show ?case
  proof (cases "vs = []")
    case True
    then show ?thesis by (simp add: parse_cell_last[OF v])
  next
    case False
    then have "join '','' (map csvCell (v # vs)) = csvCell v @ CHR '','' # join '','' (map csvCell vs)"
      by (simp add: join_Cons)
    then show ?thesis using Cons.IH[OF False vs] by (simp add: parse_cell_then[OF v])
  qed
qed

text \<open>
  Claim C10, as amended. Take a list of cells that is not empty and in which every cell
  that holds a carriage return also holds a comma, a double quote or a line feed. Reading
  the line that \<open>toCsvLine\<close> produces under the standard CSV rules gives back exactly the
  cells' strings. The empty list is excluded: it renders as the empty line, as the list of
  one empty string does. A cell with a carriage return and none of the three characters
  that trigger the quoting is written without quotes; what a reader makes of it is not
  part of the statement.
\<close>

theorem C10_csv_roundtrip:
  assumes "cells \<noteq> []"
      and "\<forall>c \<in> set cells. CHR 0x0D \<in> set (cellString numToString c)
                              \<longrightarrow> needsQuote (cellString numToString c)"
  shows "parseCsvLine (toCsvLine numToString cells) = Some (map (cellString numToString) cells)"
  using parse_join[of "map (cellString numToString) cells"] assms
  by (simp add: parseCsvLine_def toCsvLine_def comp_def)

text \<open>Cells with a comma, with a double quote and a line feed, with a carriage return next
  to a line feed, a number and an empty cell.\<close>

theorem C10_csv_roundtrip_witness:
  "[CStr ''a,b'', CNum 42, CStr [CHR ''x'', CHR 0x22, CHR 0x0A], CStr '''',
    CStr [CHR ''y'', CHR 0x0D, CHR 0x0A, CHR ''z'']] \<noteq> [] \<and>
   needsQuote [CHR ''y'', CHR 0x0D, CHR 0x0A, CHR ''z''] \<and>
   CHR 0x0D \<notin> set ''a,b'' \<and> CHR 0x0D \<notin> set (showInt 42) \<and>
   CHR 0x0D \<notin> set [CHR ''x'', CHR 0x22, CHR 0x0A] \<and> CHR 0x0D \<notin> set '''' \<and>
   parseCsvLine (toCsvLine showInt [CStr ''a,b'', CNum 42, CStr [CHR ''x'', CHR 0x22, CHR 0x0A],
                   CStr '''', CStr [CHR ''y'', CHR 0x0D, CHR 0x0A, CHR ''z'']])
     = Some [''a,b'', ''42'', [CHR ''x'', CHR 0x22, CHR 0x0A], '''',
             [CHR ''y'', CHR 0x0D, CHR 0x0A, CHR ''z'']]"
proof -
  let ?cells = "[CStr ''a,b'', CNum (42::int), CStr [CHR ''x'', CHR 0x22, CHR 0x0A], CStr '''',
                 CStr [CHR ''y'', CHR 0x0D, CHR 0x0A, CHR ''z'']]"
  have ne: "?cells \<noteq> []" by simp
  have s: "showInt 42 = ''42''"
    by (simp add: showInt_def showDigits.simps digitChar_def)
  have cr: "\<forall>c \<in> set ?cells. CHR 0x0D \<in> set (cellString showInt c)
                               \<longrightarrow> needsQuote (cellString showInt c)"
    by (simp add: s needsQuote_def)
  have q: "needsQuote [CHR ''y'', CHR 0x0D, CHR 0x0A, CHR ''z'']"
    by (simp add: needsQuote_def)
  from C10_csv_roundtrip[OF ne cr] ne q s show ?thesis by simp
qed

text \<open>
  The claim as stated fails in two ways. A cell that holds a carriage return and no comma,
  double quote or line feed is written without quotes: the line of the two cells \<open>a<CR>b\<close>
  and \<open>c\<close> is \<open>a<CR>b,c\<close>, where the carriage return ends the record, so that the cells
  do not come back. And the line of the empty list is the empty string, which reads back as one
  empty field; since the list of one empty string has the same line, no reader can give
  back both.
\<close>

theorem C10_roundtrip_counterexample:
  "toCsvLine showInt [CStr [CHR ''a'', CHR 0x0D, CHR ''b''], CStr ''c'']
     = [CHR ''a'', CHR 0x0D, CHR ''b'', CHR '','', CHR ''c''] \<and>
   parseCsvLine (toCsvLine showInt [CStr [CHR ''a'', CHR 0x0D, CHR ''b''], CStr ''c'']) = None \<and>
   parseCsvLine (toCsvLine showInt []) \<noteq> Some (map (cellString showInt) []) \<and>
   toCsvLine showInt [] = toCsvLine showInt [CStr '''']"
  by (simp add: parseCsvLine_def toCsvLine_def csvCell_def needsQuote_def escapeQuotes_def)

section \<open>Properties of the pack building\<close>

subsection \<open>The byte counter and the total cap\<close>

lemmas step_defs = exhibitStep_def skipByFilter_def skipByCap_def downloadAsBuffer_def Let_def

lemma not_jsGt_jsLe: "m \<noteq> NaN \<Longrightarrow> \<not> jsGt (ofNat a) m \<Longrightarrow> jsLe (ofNat a) m"
  by (cases m) (auto simp: jsGt_def ofNat_def)

lemma jsLe_not_NaN: "jsLe a m \<Longrightarrow> m \<noteq> NaN"
  by (cases a; cases m) auto

lemma step_used_mono:
  "exhibitsBytesUsed (fst st) \<le> exhibitsBytesUsed (fst (exhibitStep net p f base d st))"
  by (auto simp: step_defs split: prod.splits option.splits)

lemma step_cap:
  assumes "\<not> reqDeep p" "jsLe (ofNat (exhibitsBytesUsed (fst st))) (reqMaxTotalBytes p)"
  shows "jsLe (ofNat (exhibitsBytesUsed (fst (exhibitStep net p f base d st)))) (reqMaxTotalBytes p)"
  using assms jsLe_not_NaN[OF assms(2)]
  by (auto simp: step_defs not_jsGt_jsLe split: prod.splits option.splits)

lemma step_bytes:
  "exhibitBytes (fst (exhibitStep net p f base d st)) + exhibitsBytesUsed (fst st)
     = exhibitBytes (fst st) + exhibitsBytesUsed (fst (exhibitStep net p f base d st))"
  by (auto simp: step_defs exhibitBytes_def startsWith_def split: prod.splits option.splits)

lemma loop_used_mono:
  "exhibitsBytesUsed (fst st) \<le> exhibitsBytesUsed (fst (exhibitsLoop net p f base ds st))"
proof (induction ds arbitrary: st)
  case Nil
  then show ?case by simp
next
  case (Cons d ds)
  have "exhibitsBytesUsed (fst st) \<le> exhibitsBytesUsed (fst (exhibitStep net p f base d st))"
    by (rule step_used_mono)
  also have "\<dots> \<le> exhibitsBytesUsed (fst (exhibitsLoop net p f base ds (exhibitStep net p f base d st)))"
    by (rule Cons.IH)
  finally show ?case by simp
qed

lemma loop_cap:
  assumes "\<not> reqDeep p"
  shows "jsLe (ofNat (exhibitsBytesUsed (fst st))) (reqMaxTotalBytes p) \<Longrightarrow>
         jsLe (ofNat (exhibitsBytesUsed (fst (exhibitsLoop net p f base ds st)))) (reqMaxTotalBytes p)"
proof (induction ds arbitrary: st)
  case Nil
  then show ?case by simp
next
  case (Cons d ds)
  from step_cap[OF assms Cons.prems] Cons.IH show ?case by simp
qed

lemma loop_bytes:
  "exhibitBytes (fst (exhibitsLoop net p f base ds st)) + exhibitsBytesUsed (fst st)
     = exhibitBytes (fst st) + exhibitsBytesUsed (fst (exhibitsLoop net p f base ds st))"
proof (induction ds arbitrary: st)
  case Nil
  then show ?case by simp
next
  case (Cons d ds)
  from Cons.IH[of "exhibitStep net p f base d st"] step_bytes[of net p f base d st]
    step_used_mono[of st net p f base d]
  show ?case by simp
qed

lemma disabled_frame:
  "exhibitsBytesUsed (disabledLoop f base ds s) = exhibitsBytesUsed s \<and>
   archive (disabledLoop f base ds s) = archive s \<and>
   requests (disabledLoop f base ds s) = requests s"
  by (induction ds arbitrary: s) auto

lemma disabled_bytes: "exhibitBytes (disabledLoop f base ds s) = exhibitBytes s"
  using disabled_frame[of f base ds s] by (simp add: exhibitBytes_def)

lemma enumerate_used_mono:
  "exhibitsBytesUsed s \<le> exhibitsBytesUsed (enumerateDocs net pf p cik10 f idxBuf s)"
  unfolding enumerateDocs_def Let_def
  using loop_used_mono[of "(s, 0)" net p f] loop_used_mono[of "(s\<lparr>inventoryLines := _\<rparr>, 0)" net p f]
  by (simp add: disabled_frame)

lemma enumerate_cap:
  assumes "\<not> reqDeep p" "jsLe (ofNat (exhibitsBytesUsed s)) (reqMaxTotalBytes p)"
  shows "jsLe (ofNat (exhibitsBytesUsed (enumerateDocs net pf p cik10 f idxBuf s))) (reqMaxTotalBytes p)"
  unfolding enumerateDocs_def Let_def
  using assms(2) loop_cap[OF assms(1), of "(s, 0)" net f]
    loop_cap[OF assms(1), of "(s\<lparr>inventoryLines := _\<rparr>, 0)" net f]
  by (simp add: disabled_frame)

lemma enumerate_bytes:
  "exhibitBytes (enumerateDocs net pf p cik10 f idxBuf s) + exhibitsBytesUsed s
     = exhibitBytes s + exhibitsBytesUsed (enumerateDocs net pf p cik10 f idxBuf s)"
  unfolding enumerateDocs_def Let_def
  using loop_bytes[of net p f _ _ "(s, 0)"] loop_bytes[of net p f _ _ "(s\<lparr>inventoryLines := _\<rparr>, 0)"]
  by (simp add: disabled_frame disabled_bytes exhibitBytes_def)

lemma filing_used_mono:
  "exhibitsBytesUsed s \<le> exhibitsBytesUsed (snd (processFiling net pf p cik10 f s))"
  unfolding processFiling_def downloadAsBuffer_def Let_def
  by (auto split: option.splits intro: order_trans[OF _ enumerate_used_mono])

lemma filing_cap:
  assumes "\<not> reqDeep p" "jsLe (ofNat (exhibitsBytesUsed s)) (reqMaxTotalBytes p)"
  shows "jsLe (ofNat (exhibitsBytesUsed (snd (processFiling net pf p cik10 f s)))) (reqMaxTotalBytes p)"
  using assms unfolding processFiling_def downloadAsBuffer_def Let_def
  by (auto split: option.splits intro!: enumerate_cap)

lemma filing_bytes:
  "exhibitBytes (snd (processFiling net pf p cik10 f s)) + exhibitsBytesUsed s
     = exhibitBytes s + exhibitsBytesUsed (snd (processFiling net pf p cik10 f s))"
proof (cases "net (length (requests s)) (filingArchiveUrl cik10 f)")
  case None
  then show ?thesis by (simp add: processFiling_def downloadAsBuffer_def exhibitBytes_def)
next
  case main: (Some mainBuf)
  show ?thesis
  proof (cases "net (Suc (length (requests s))) (filingIndexUrl cik10 f)")
    case None
    with main show ?thesis
      by (simp add: processFiling_def downloadAsBuffer_def exhibitBytes_def startsWith_def Let_def)
  next
    case idx: (Some idxBuf)
    let ?s4 = "s\<lparr>requests := requests s @ [filingArchiveUrl cik10 f, filingIndexUrl cik10 f],
                   archive := archive s
                      @ [(''filings/''
                          @ safeName (filingDate f @ ''__'' @ form f @ ''__'' @ accessionNumber f
                                      @ ''__'' @ primaryDocument f), mainBuf),
                         (''indexes/''
                              @ safeName (filingDate f @ ''__'' @ form f @ ''__''
                                          @ accessionNumber f @ ''__INDEX.html''), idxBuf)]\<rparr>"
    have r: "snd (processFiling net pf p cik10 f s) = enumerateDocs net pf p cik10 f idxBuf ?s4"
      using main idx by (simp add: processFiling_def downloadAsBuffer_def Let_def)
    have "exhibitBytes ?s4 = exhibitBytes s" "exhibitsBytesUsed ?s4 = exhibitsBytesUsed s"
      by (simp_all add: exhibitBytes_def startsWith_def)
    with enumerate_bytes[of net pf p cik10 f idxBuf ?s4] r show ?thesis by simp
  qed
qed

lemma run_invariant:
  "exhibitsBytesUsed s \<le> exhibitsBytesUsed (snd (processFilings net pf p cik10 fs s)) \<and>
   exhibitBytes (snd (processFilings net pf p cik10 fs s)) + exhibitsBytesUsed s
     = exhibitBytes s + exhibitsBytesUsed (snd (processFilings net pf p cik10 fs s)) \<and>
   (\<not> reqDeep p \<longrightarrow> jsLe (ofNat (exhibitsBytesUsed s)) (reqMaxTotalBytes p) \<longrightarrow>
      jsLe (ofNat (exhibitsBytesUsed (snd (processFilings net pf p cik10 fs s)))) (reqMaxTotalBytes p))"
proof (induction fs arbitrary: s)
  case Nil
  then show ?case by simp
next
  case (Cons f fs)
  obtain e s1 where r: "processFiling net pf p cik10 f s = (e, s1)" by (cases "processFiling net pf p cik10 f s")
  have m: "exhibitsBytesUsed s \<le> exhibitsBytesUsed s1"
    using filing_used_mono[of s net pf p cik10 f] r by simp
  have b: "exhibitBytes s1 + exhibitsBytesUsed s = exhibitBytes s + exhibitsBytesUsed s1"
    using filing_bytes[of net pf p cik10 f s] r by simp
  have c: "\<not> reqDeep p \<Longrightarrow> jsLe (ofNat (exhibitsBytesUsed s)) (reqMaxTotalBytes p) \<Longrightarrow>
      jsLe (ofNat (exhibitsBytesUsed s1)) (reqMaxTotalBytes p)"
    using filing_cap[of p s net pf cik10 f] r by simp
  show ?case
  proof (cases e)
    case (Some err)
    with r m b c show ?thesis by simp
  next
    case None
    with r have "processFilings net pf p cik10 (f # fs) s = processFilings net pf p cik10 fs s1"
      by simp
    with Cons.IH[of s1] m b c show ?thesis by auto
  qed
qed

lemma request_cap:
  assumes "parseRequest num ua q = Inr p" "\<not> reqDeep p"
  shows "\<exists>mb. 5 \<le> mb \<and> mb \<le> 500 \<and> reqMaxMb p = Fin mb \<and> reqMaxTotalBytes p = Fin (mb * 1024 * 1024)"
proof -
  let ?mb = "numberOr num (map_of q ''maxMb'') (Fin 75)"
  from assms have 1: "?mb \<noteq> NaN" "\<not> jsLt ?mb (Fin 5)" "\<not> jsGt ?mb (Fin 500)"
    and 2: "reqMaxMb p = ?mb" "reqMaxTotalBytes p = jsMul (jsMul ?mb (Fin 1024)) (Fin 1024)"
    by (auto simp: parseRequest_def Let_def split: if_splits)
  from 1 obtain mb where "?mb = Fin mb" "5 \<le> mb" "mb \<le> 500"
    by (cases ?mb) (auto simp: jsGt_def)
  with 2 show ?thesis by auto
qed

lemma start_cap:
  assumes "parseRequest num ua q = Inr p" "\<not> reqDeep p"
  shows "jsLe (ofNat (exhibitsBytesUsed (startState rs ar))) (reqMaxTotalBytes p)"
  using request_cap[OF assms] by (auto simp: startState_def ofNat_def)

text \<open>
  Claim C3. The counter \<open>exhibitsBytesUsed\<close> never decreases, in one turn of the loop over the
  documents as in a whole run over the selected filings, whether the run ends normally or
  with a failure; it grows by exactly the bytes of the exhibits appended to the archive.
  With \<open>deep\<close> off, a counter that is within \<open>maxTotalBytes\<close> stays within it after every turn
  and after every run. A run that the handler starts (validated parameters, the counter at
  zero) therefore never holds more accepted exhibit bytes than \<open>maxTotalBytes\<close>.
\<close>

theorem C3_total_bytes_never_exceed_cap:
  "exhibitsBytesUsed (fst st) \<le> exhibitsBytesUsed (fst (exhibitStep net p f base d st)) \<and>
   (\<not> reqDeep p \<longrightarrow> jsLe (ofNat (exhibitsBytesUsed (fst st))) (reqMaxTotalBytes p) \<longrightarrow>
      jsLe (ofNat (exhibitsBytesUsed (fst (exhibitStep net p f base d st)))) (reqMaxTotalBytes p)) \<and>
   exhibitsBytesUsed s \<le> exhibitsBytesUsed (snd (processFilings net pf p cik10 fs s)) \<and>
   exhibitBytes (snd (processFilings net pf p cik10 fs s)) + exhibitsBytesUsed s
     = exhibitBytes s + exhibitsBytesUsed (snd (processFilings net pf p cik10 fs s)) \<and>
   (\<not> reqDeep p \<longrightarrow> jsLe (ofNat (exhibitsBytesUsed s)) (reqMaxTotalBytes p) \<longrightarrow>
      jsLe (ofNat (exhibitsBytesUsed (snd (processFilings net pf p cik10 fs s)))) (reqMaxTotalBytes p)) \<and>
   (parseRequest num ua q = Inr p \<longrightarrow> \<not> reqDeep p \<longrightarrow>
      jsLe (ofNat (exhibitsBytesUsed (snd (processFilings net pf p cik10 fs (startState rs ar)))))
        (reqMaxTotalBytes p))"
proof -
  have last: "jsLe (ofNat (exhibitsBytesUsed (snd (processFilings net pf p cik10 fs (startState rs ar)))))
        (reqMaxTotalBytes p)" if "parseRequest num ua q = Inr p" "\<not> reqDeep p"
    using run_invariant[of "startState rs ar" net pf p cik10 fs] start_cap[OF that] that(2) by blast
  show ?thesis
    using step_used_mono[of st net p f base d] step_cap[of p st net f base d]
      run_invariant[of s net pf p cik10 fs] last
    by blast
qed

text \<open>A validated request without \<open>deep\<close>, and two turns under a cap of ten bytes: the
  document of seven bytes is accepted, the one of eight bytes is not.\<close>

theorem C3_total_bytes_never_exceed_cap_witness:
  "parseRequest toNumber (Some ''agent'') exQuery
     = Inr \<lparr>reqTicker = ''AAPL'', reqDaysBack = Fin 30, reqMaxEx = Fin 2, reqMaxMb = Fin 5,
            reqIncludeExhibits = True, reqDeep = False, reqAsOf = None, reqAll = True,
            reqMaxTotalBytes = Fin 5242880, reqMaxPerFiling = Fin 2\<rparr> \<and>
   jsLe (ofNat (exhibitsBytesUsed (snd (processFilings exNet parseFloat
       \<lparr>reqTicker = ''AAPL'', reqDaysBack = Fin 30, reqMaxEx = Fin 2, reqMaxMb = Fin 5,
            reqIncludeExhibits = True, reqDeep = False, reqAsOf = None, reqAll = True,
            reqMaxTotalBytes = Fin 5242880, reqMaxPerFiling = Fin 2\<rparr>
       ''0000320193'' [exFiling] (startState [] []))))) (Fin 5242880) \<and>
   exhibitsBytesUsed (fst (exhibitStep exNet exCap exFiling exBase exDoc10 (startState [] [], 0))) = 7 \<and>
   exhibitsBytesUsed (fst (exhibitStep exNet exCap exFiling exBase exDoc99
      (exhibitStep exNet exCap exFiling exBase exDoc10 (startState [] [], 0)))) = 7 \<and>
   jsLe (ofNat (exhibitsBytesUsed (fst (exhibitStep exNet exCap exFiling exBase exDoc99
      (exhibitStep exNet exCap exFiling exBase exDoc10 (startState [] [], 0)))))) (Fin 10)"
proof -
  let ?p = "\<lparr>reqTicker = ''AAPL'', reqDaysBack = Fin 30, reqMaxEx = Fin 2, reqMaxMb = Fin 5,
            reqIncludeExhibits = True, reqDeep = False, reqAsOf = None, reqAll = True,
            reqMaxTotalBytes = Fin 5242880, reqMaxPerFiling = Fin 2\<rparr>"
  have q: "parseRequest toNumber (Some ''agent'') exQuery = Inr ?p" by code_simp
  have nd: "\<not> reqDeep ?p" "\<not> reqDeep exCap" by (simp_all add: exCap_def)
  have u1: "exhibitsBytesUsed (fst (exhibitStep exNet exCap exFiling exBase exDoc10 (startState [] [], 0))) = 7"
    by code_simp
  have u2: "exhibitsBytesUsed (fst (exhibitStep exNet exCap exFiling exBase exDoc99
      (exhibitStep exNet exCap exFiling exBase exDoc10 (startState [] [], 0)))) = 7"
    by code_simp
  have c1: "jsLe (ofNat (exhibitsBytesUsed (fst (exhibitStep exNet exCap exFiling exBase exDoc10
      (startState [] [], 0))))) (reqMaxTotalBytes exCap)"
    unfolding u1 by (simp add: exCap_def ofNat_def)
  from C3_total_bytes_never_exceed_cap[of "exhibitStep exNet exCap exFiling exBase exDoc10 (startState [] [], 0)"
            exNet exCap exFiling exBase exDoc99]
    nd c1
  have c2: "jsLe (ofNat (exhibitsBytesUsed (fst (exhibitStep exNet exCap exFiling exBase exDoc99
      (exhibitStep exNet exCap exFiling exBase exDoc10 (startState [] [], 0))))))
      (reqMaxTotalBytes exCap)" by blast
  from C3_total_bytes_never_exceed_cap[of _ exNet ?p _ _ _ _ parseFloat "''0000320193''" "[exFiling]" toNumber "Some ''agent''" exQuery "[]" "[]"]
    q nd
  have c3: "jsLe (ofNat (exhibitsBytesUsed (snd (processFilings exNet parseFloat ?p
       ''0000320193'' [exFiling] (startState [] []))))) (reqMaxTotalBytes ?p)" by blast
  from q u1 u2 c2 c3 show ?thesis by (simp add: exCap_def)
qed

subsection \<open>Junk exhibits\<close>

lemma junk_step:
  "isJunkType (type d) \<Longrightarrow> fetched (exhibitStep net p f base d st) = fetched st"
  by (simp add: step_defs fetched_def)

lemma fetched_step_cong:
  "fetched st = fetched st' \<Longrightarrow>
     fetched (exhibitStep net p f base d st) = fetched (exhibitStep net p f base d st')"
  by (cases st; cases st') (auto simp: step_defs fetched_def split: option.splits)

lemma loop_erasure:
  "fetched st = fetched st' \<Longrightarrow>
     fetched (exhibitsLoop net p f base ds st)
       = fetched (exhibitsLoop net p f base (filter (\<lambda>d. \<not> isJunkType (type d)) ds) st')"
proof (induction ds arbitrary: st st')
  case Nil
  then show ?case by simp
next
  case (Cons d ds)
  show ?case
  proof (cases "isJunkType (type d)")
    case True
    then have "fetched (exhibitStep net p f base d st) = fetched st'"
      using junk_step Cons.prems by simp
    then show ?thesis using True Cons.IH by simp
  next
    case False
    have "fetched (exhibitStep net p f base d st) = fetched (exhibitStep net p f base d st')"
      using Cons.prems by (rule fetched_step_cong)
    then show ?thesis using False Cons.IH by simp
  qed
qed

lemma junk_line:
  "isJunkType (type d) \<Longrightarrow>
     inventoryLines (fst (exhibitStep net p f base d st))
       = inventoryLines (fst st)
         @ (if filename d = [] \<or> type d = [] then []
            else [docLine f d ''SKIPPED'' ''junk (XBRL noise)'' (base @ ''/'' @ filename d)])"
  by (simp add: step_defs)

text \<open>
  Claim C7. In every mode, \<open>deep\<close> included, a turn of the loop on a document of a junk type
  requests nothing, appends nothing to the archive, and leaves the byte counter, the list of
  downloaded exhibits and the filing's counter as they were; all it adds is the inventory
  line that reports the document as skipped. Over a whole list of documents, what the loop
  requests, archives and counts is what it would with the junk documents removed from the
  list.
\<close>

theorem C7_junk_never_fetched:
  "(isJunkType (type d) \<longrightarrow>
      fetched (exhibitStep net p f base d st) = fetched st \<and>
      inventoryLines (fst (exhibitStep net p f base d st))
        = inventoryLines (fst st)
          @ (if filename d = [] \<or> type d = [] then []
             else [docLine f d ''SKIPPED'' ''junk (XBRL noise)'' (base @ ''/'' @ filename d)])) \<and>
   fetched (exhibitsLoop net p f base ds st)
     = fetched (exhibitsLoop net p f base (filter (\<lambda>d. \<not> isJunkType (type d)) ds) st)"
  using junk_step[of d net p f base st] junk_line[of d net p f base st]
    loop_erasure[of st st net p f base ds]
  by blast

text \<open>The XBRL instance document of the example, with \<open>deep\<close> on.\<close>

theorem C7_junk_never_fetched_witness:
  "isJunkType (type exDoc101) \<and> reqDeep exDeep \<and>
   fetched (exhibitStep exNet exDeep exFiling exBase exDoc101 (startState [] [], 0))
     = ([], [], 0, [], 0) \<and>
   inventoryLines (fst (exhibitStep exNet exDeep exFiling exBase exDoc101 (startState [] [], 0)))
     = [inventoryHeader,
        docLine exFiling exDoc101 ''SKIPPED'' ''junk (XBRL noise)'' (exBase @ ''/x101.xml'')]"
proof -
  have j: "isJunkType (type exDoc101)" by code_simp
  have n: "\<not> (filename exDoc101 = [] \<or> type exDoc101 = [])" "filename exDoc101 = ''x101.xml''"
    by (simp_all add: exDoc101_def)
  have d: "reqDeep exDeep" by (simp add: exDeep_def)
  have s: "fetched (startState [] [], 0) = ([], [], 0, [], 0)"
    "inventoryLines (fst (startState [] [], 0)) = [inventoryHeader]"
    by (simp_all add: fetched_def startState_def)
  note c = C7_junk_never_fetched[of exDoc101 exNet exDeep exFiling exBase "(startState [] [], 0)",
               THEN conjunct1, THEN mp, OF j]
  from c[THEN conjunct1] c[THEN conjunct2] j d n s show ?thesis by simp
qed

subsection \<open>The two checks of the total cap\<close>

lemma sizeText_irrelevant:
  "fetched (exhibitStep net p f base (d\<lparr>sizeText := t\<rparr>) st) = fetched (exhibitStep net p f base d st)"
  by (auto simp: step_defs fetched_def split: option.splits)

lemma cap_checks:
  assumes "\<not> reqDeep p" "filename d \<noteq> []" "type d \<noteq> []" "\<not> isJunkType (type d)"
    "isHighSignalExhibitType (type d)" "\<not> jsGe (ofNat n) (reqMaxPerFiling p)"
  shows "jsGe (ofNat (exhibitsBytesUsed s)) (reqMaxTotalBytes p) \<Longrightarrow>
           exhibitStep net p f base d (s, n)
             = (skipByCap f d ''skipped (maxTotalMB cap)'' ''cap: maxTotalMB''
                  (base @ ''/'' @ filename d) s, n)"
    and "\<not> jsGe (ofNat (exhibitsBytesUsed s)) (reqMaxTotalBytes p) \<Longrightarrow>
         net (length (requests s)) (base @ ''/'' @ filename d) = Some b \<Longrightarrow>
         jsGt (ofNat (exhibitsBytesUsed s + length b)) (reqMaxTotalBytes p) \<Longrightarrow>
           exhibitStep net p f base d (s, n)
             = (skipByCap f d ''skipped (would exceed maxTotalMB cap)''
                  ''cap: would exceed maxTotalMB'' (base @ ''/'' @ filename d)
                  (s\<lparr>requests := requests s @ [base @ ''/'' @ filename d]\<rparr>), n)"
    and "\<not> jsGe (ofNat (exhibitsBytesUsed s)) (reqMaxTotalBytes p) \<Longrightarrow>
         net (length (requests s)) (base @ ''/'' @ filename d) = Some b \<Longrightarrow>
         \<not> jsGt (ofNat (exhibitsBytesUsed s + length b)) (reqMaxTotalBytes p) \<Longrightarrow>
           exhibitsBytesUsed (fst (exhibitStep net p f base d (s, n))) = exhibitsBytesUsed s + length b \<and>
           snd (exhibitStep net p f base d (s, n)) = n + 1 \<and>
           inventoryLines (fst (exhibitStep net p f base d (s, n)))
             = inventoryLines s @ [docLine f d ''DOWNLOADED'' [] (base @ ''/'' @ filename d)]"
  using assms by (simp_all add: step_defs)

text \<open>
  Claim C2, as amended. With \<open>deep\<close> off, take a document that reaches the total-cap checks
  (named, typed, not junk, high-signal, the per-filing cap not reached). Before the download
  it is skipped with the reason \<open>cap: maxTotalMB\<close>, and nothing is requested, when the bytes
  accepted so far have already reached \<open>maxTotalBytes\<close>. Otherwise it is downloaded; it is
  then skipped with the reason \<open>cap: would exceed maxTotalMB\<close> when the bytes accepted so far
  plus its downloaded length exceed \<open>maxTotalBytes\<close>, and accepted and counted otherwise.
  The size text that the index reports plays no part in either check: what a turn requests,
  archives and counts is the same for every size text.
\<close>

theorem C2_total_cap_two_checks:
  assumes "\<not> reqDeep p" "filename d \<noteq> []" "type d \<noteq> []" "\<not> isJunkType (type d)"
    "isHighSignalExhibitType (type d)" "\<not> jsGe (ofNat n) (reqMaxPerFiling p)"
  shows
   "(jsGe (ofNat (exhibitsBytesUsed s)) (reqMaxTotalBytes p) \<longrightarrow>
       exhibitStep net p f base d (s, n)
         = (skipByCap f d ''skipped (maxTotalMB cap)'' ''cap: maxTotalMB''
              (base @ ''/'' @ filename d) s, n)) \<and>
    (\<not> jsGe (ofNat (exhibitsBytesUsed s)) (reqMaxTotalBytes p) \<longrightarrow>
       (\<forall>b. net (length (requests s)) (base @ ''/'' @ filename d) = Some b \<longrightarrow>
          (jsGt (ofNat (exhibitsBytesUsed s + length b)) (reqMaxTotalBytes p) \<longrightarrow>
             exhibitStep net p f base d (s, n)
               = (skipByCap f d ''skipped (would exceed maxTotalMB cap)''
                    ''cap: would exceed maxTotalMB'' (base @ ''/'' @ filename d)
                    (s\<lparr>requests := requests s @ [base @ ''/'' @ filename d]\<rparr>), n)) \<and>
          (\<not> jsGt (ofNat (exhibitsBytesUsed s + length b)) (reqMaxTotalBytes p) \<longrightarrow>
             exhibitsBytesUsed (fst (exhibitStep net p f base d (s, n)))
               = exhibitsBytesUsed s + length b \<and>
             snd (exhibitStep net p f base d (s, n)) = n + 1 \<and>
             inventoryLines (fst (exhibitStep net p f base d (s, n)))
               = inventoryLines s @ [docLine f d ''DOWNLOADED'' [] (base @ ''/'' @ filename d)]))) \<and>
    (\<forall>t. fetched (exhibitStep net p f base (d\<lparr>sizeText := t\<rparr>) (s, n))
           = fetched (exhibitStep net p f base d (s, n)))"
proof (intro conjI impI allI)
  assume "jsGe (ofNat (exhibitsBytesUsed s)) (reqMaxTotalBytes p)"
  then show "exhibitStep net p f base d (s, n)
         = (skipByCap f d ''skipped (maxTotalMB cap)'' ''cap: maxTotalMB''
              (base @ ''/'' @ filename d) s, n)"
    using cap_checks(1)[OF assms, where s = s and net = net and base = base and f = f] by simp
next
  fix b
  assume a: "\<not> jsGe (ofNat (exhibitsBytesUsed s)) (reqMaxTotalBytes p)"
    "net (length (requests s)) (base @ ''/'' @ filename d) = Some b"
    "jsGt (ofNat (exhibitsBytesUsed s + length b)) (reqMaxTotalBytes p)"
  show "exhibitStep net p f base d (s, n)
               = (skipByCap f d ''skipped (would exceed maxTotalMB cap)''
                    ''cap: would exceed maxTotalMB'' (base @ ''/'' @ filename d)
                    (s\<lparr>requests := requests s @ [base @ ''/'' @ filename d]\<rparr>), n)"
    using cap_checks(2)[OF assms, where s = s and net = net and base = base and b = b, OF a] by simp
next
  fix b
  assume a: "\<not> jsGe (ofNat (exhibitsBytesUsed s)) (reqMaxTotalBytes p)"
    "net (length (requests s)) (base @ ''/'' @ filename d) = Some b"
    "\<not> jsGt (ofNat (exhibitsBytesUsed s + length b)) (reqMaxTotalBytes p)"
  note r = cap_checks(3)[OF assms, where s = s and net = net and base = base and b = b and f = f, OF a]
  show "exhibitsBytesUsed (fst (exhibitStep net p f base d (s, n))) = exhibitsBytesUsed s + length b"
    using r by (rule conjunct1)
  show "snd (exhibitStep net p f base d (s, n)) = n + 1"
    using r by simp
  show "inventoryLines (fst (exhibitStep net p f base d (s, n)))
               = inventoryLines s @ [docLine f d ''DOWNLOADED'' [] (base @ ''/'' @ filename d)]"
    using r by simp
next
  fix t
  show "fetched (exhibitStep net p f base (d\<lparr>sizeText := t\<rparr>) (s, n))
           = fetched (exhibitStep net p f base d (s, n))"
    by (rule sizeText_irrelevant)
qed


text \<open>Under a cap of ten bytes: with seven bytes accepted, the document of eight bytes is
  downloaded and skipped by the second check; with ten bytes accepted it is skipped by the
  first check.\<close>

theorem C2_total_cap_two_checks_witness:
  "exhibitStep exNet exCap exFiling exBase exDoc99
      (startState [exBase @ ''/ex10.htm''] [] \<lparr>exhibitsBytesUsed := 7\<rparr>, 1)
     = (skipByCap exFiling exDoc99 ''skipped (would exceed maxTotalMB cap)''
          ''cap: would exceed maxTotalMB'' (exBase @ ''/ex99.htm'')
          (startState [exBase @ ''/ex10.htm'', exBase @ ''/ex99.htm''] [] \<lparr>exhibitsBytesUsed := 7\<rparr>), 1) \<and>
   exhibitStep exNet exCap exFiling exBase exDoc99
      (startState [] [] \<lparr>exhibitsBytesUsed := 10\<rparr>, 1)
     = (skipByCap exFiling exDoc99 ''skipped (maxTotalMB cap)'' ''cap: maxTotalMB''
          (exBase @ ''/ex99.htm'') (startState [] [] \<lparr>exhibitsBytesUsed := 10\<rparr>), 1)"
proof -
  have h: "\<not> reqDeep exCap" "filename exDoc99 \<noteq> []" "type exDoc99 \<noteq> []"
    "\<not> jsGe (ofNat 1) (reqMaxPerFiling exCap)"
    by (simp_all add: exCap_def exDoc99_def jsGe_def ofNat_def)
  have j: "\<not> isJunkType (type exDoc99)" "isHighSignalExhibitType (type exDoc99)"
    by code_simp+
  have fn: "filename exDoc99 = ''ex99.htm''" by (simp add: exDoc99_def)
  let ?s7 = "startState [exBase @ ''/ex10.htm''] [] \<lparr>exhibitsBytesUsed := 7\<rparr>"
  let ?s10 = "startState [] [] \<lparr>exhibitsBytesUsed := 10\<rparr>"
  have n: "exNet (length (requests ?s7)) (exBase @ ''/'' @ filename exDoc99) = Some ''01234567''"
    by (simp add: exNet_def fn startState_def)
  have c7: "\<not> jsGe (ofNat (exhibitsBytesUsed ?s7)) (reqMaxTotalBytes exCap)"
    "jsGt (ofNat (exhibitsBytesUsed ?s7 + length ''01234567'')) (reqMaxTotalBytes exCap)"
    by (simp_all add: exCap_def jsGe_def jsGt_def ofNat_def startState_def)
  have c10: "jsGe (ofNat (exhibitsBytesUsed ?s10)) (reqMaxTotalBytes exCap)"
    by (simp add: exCap_def jsGe_def ofNat_def startState_def)
  note t7 = C2_total_cap_two_checks[OF h(1-3) j h(4), where s = ?s7 and net = exNet and base = exBase and f = exFiling]
  note t10 = C2_total_cap_two_checks[OF h(1-3) j h(4), where s = ?s10 and net = exNet and base = exBase and f = exFiling]
  from t7[THEN conjunct2, THEN conjunct1, THEN mp, OF c7(1), THEN spec, THEN mp, OF n,
          THEN conjunct1, THEN mp, OF c7(2)]
       t10[THEN conjunct1, THEN mp, OF c10]
  show ?thesis by (simp add: fn startState_def)
qed

text \<open>
  The claim as stated fails: a document whose reported size, 9 MB, is far beyond the cap of
  ten bytes is not skipped before the download. It is requested and, its real length being
  seven bytes, accepted.
\<close>

theorem C2_reported_size_counterexample:
  "jsGt (parseSize parseFloat (sizeText (exDoc10\<lparr>sizeText := ''9 MB''\<rparr>))) (reqMaxTotalBytes exCap) \<and>
   requests (fst (exhibitStep exNet exCap exFiling exBase (exDoc10\<lparr>sizeText := ''9 MB''\<rparr>)
      (startState [] [], 0))) = [exBase @ ''/ex10.htm''] \<and>
   exhibitsBytesUsed (fst (exhibitStep exNet exCap exFiling exBase (exDoc10\<lparr>sizeText := ''9 MB''\<rparr>)
      (startState [] [], 0))) = 7 \<and>
   inventoryLines (fst (exhibitStep exNet exCap exFiling exBase (exDoc10\<lparr>sizeText := ''9 MB''\<rparr>)
      (startState [] [], 0)))
     = [inventoryHeader,
        docLine exFiling (exDoc10\<lparr>sizeText := ''9 MB''\<rparr>) ''DOWNLOADED'' [] (exBase @ ''/ex10.htm'')]"
proof -
  have 1: "parseSize parseFloat (sizeText (exDoc10\<lparr>sizeText := ''9 MB''\<rparr>)) = Fin 9437184"
    by code_simp
  have 2: "requests (fst (exhibitStep exNet exCap exFiling exBase (exDoc10\<lparr>sizeText := ''9 MB''\<rparr>)
      (startState [] [], 0))) = [exBase @ ''/ex10.htm'']"
    by code_simp
  have 3: "exhibitsBytesUsed (fst (exhibitStep exNet exCap exFiling exBase (exDoc10\<lparr>sizeText := ''9 MB''\<rparr>)
      (startState [] [], 0))) = 7"
    by code_simp
  have 4: "inventoryLines (fst (exhibitStep exNet exCap exFiling exBase (exDoc10\<lparr>sizeText := ''9 MB''\<rparr>)
      (startState [] [], 0)))
     = [inventoryHeader,
        docLine exFiling (exDoc10\<lparr>sizeText := ''9 MB''\<rparr>) ''DOWNLOADED'' [] (exBase @ ''/ex10.htm'')]"
    by code_simp
  from 1 2 3 4 show ?thesis by (simp add: exCap_def jsGt_def)
qed

section \<open>Properties of the index parser\<close>

lemma docsLoop_eq:
  "docsLoop docs rows
     = docs @ map (\<lambda>row. \<lparr>seq = rowTds row ! 0, description = rowTds row ! 1,
                           type = rowTds row ! 3, filename = rowFilename row,
                           sizeText = (if 4 < length (rowTds row) then rowTds row ! 4 else [])\<rparr>)
          (filter (\<lambda>row. rowFilename row \<noteq> [] \<and> 4 \<le> length (rowTds row) \<and>
                          rowTds row ! 3 \<noteq> [] \<and> rowTds row ! 3 \<noteq> ''Type'') rows)"
proof (induction rows arbitrary: docs)
  case Nil
  then show ?case by simp
next
  case (Cons row rows)
  show ?case
    by (simp add: Cons.IH Let_def nthOr_def orElse_def)
qed

lemma docs_named:
  "d \<in> set (getDocsFromIndexHtml indexHtml) \<Longrightarrow> filename d \<noteq> [] \<and> type d \<noteq> []"
  by (auto simp: getDocsFromIndexHtml_def docsLoop_eq)

text \<open>
  Claim C8. For every index text, the documents that \<open>getDocsFromIndexHtml\<close> returns are,
  in order, those of the rows that have a non-empty file name (the last segment of the
  first link), at least four cells, and a normalised fourth cell that is neither empty nor
  the text \<open>Type\<close>; every other row is left out. The function has no failing branch: it
  returns a list for every text.
\<close>

theorem C8_rows_that_yield_docs:
  "getDocsFromIndexHtml indexHtml
     = map (\<lambda>row. \<lparr>seq = rowTds row ! 0, description = rowTds row ! 1,
                    type = rowTds row ! 3, filename = rowFilename row,
                    sizeText = (if 4 < length (rowTds row) then rowTds row ! 4 else [])\<rparr>)
         (filter (\<lambda>row. rowFilename row \<noteq> [] \<and> 4 \<le> length (rowTds row) \<and>
                         rowTds row ! 3 \<noteq> [] \<and> rowTds row ! 3 \<noteq> ''Type'') (rowsOf indexHtml))"
  by (simp add: getDocsFromIndexHtml_def docsLoop_eq)


section \<open>Properties of the document inventory\<close>

lemma mset_insertScored: "mset (insertScored a bs) = add_mset a (mset bs)"
  by (induction bs) auto

lemma mset_sortScored: "mset (sortScored xs) = mset xs"
  by (induction xs) (auto simp: mset_insertScored)

lemma mset_scoredDocs: "mset (scoredDocs pf docs) = mset docs"
proof -
  have "mset (map fst (sortScored (map (scoreDoc pf) docs))) = mset (map fst (map (scoreDoc pf) docs))"
    by (simp only: mset_map mset_sortScored)
  also have "map fst (map (scoreDoc pf) docs) = docs"
    by (induction docs) (simp_all add: scoreDoc_def)
  finally show ?thesis by (simp add: scoredDocs_def)
qed

lemma step_line_cases:
  assumes "filename d \<noteq> []" "type d \<noteq> []"
  shows "inventoryLines (fst (exhibitStep net p f base d st))
           = inventoryLines (fst st) @ [docLine f d ''DOWNLOADED'' [] (base @ ''/'' @ filename d)] \<or>
         (\<exists>why \<in> set [''junk (XBRL noise)'', ''not high-signal (non-deep mode)'',
                        ''cap: maxExPerFiling'', ''cap: maxTotalMB'', ''download failed'',
                        ''cap: would exceed maxTotalMB''].
           inventoryLines (fst (exhibitStep net p f base d st))
             = inventoryLines (fst st) @ [docLine f d ''SKIPPED'' why (base @ ''/'' @ filename d)])"
  using assms by (simp add: step_defs split: option.splits)

lemma step_line:
  assumes "filename d \<noteq> []" "type d \<noteq> []"
  shows "\<exists>tag why. auditEntry tag why \<and>
           inventoryLines (fst (exhibitStep net p f base d st))
             = inventoryLines (fst st) @ [docLine f d tag why (base @ ''/'' @ filename d)]"
proof -
  from step_line_cases[OF assms, of net p f base st]
  consider (dl) "inventoryLines (fst (exhibitStep net p f base d st))
           = inventoryLines (fst st) @ [docLine f d ''DOWNLOADED'' [] (base @ ''/'' @ filename d)]"
    | (sk) why where "why \<noteq> []" "inventoryLines (fst (exhibitStep net p f base d st))
             = inventoryLines (fst st) @ [docLine f d ''SKIPPED'' why (base @ ''/'' @ filename d)]"
    by fastforce
  then show ?thesis
  proof cases
    case dl
    moreover have "auditEntry ''DOWNLOADED'' []" by (simp add: auditEntry_def)
    ultimately show ?thesis by blast
  next
    case sk
    moreover from sk(1) have "auditEntry ''SKIPPED'' why" by (simp add: auditEntry_def)
    ultimately show ?thesis by blast
  qed
qed

lemma loop_lines:
  assumes "\<forall>d \<in> set ds. filename d \<noteq> [] \<and> type d \<noteq> []"
  shows "\<exists>decs. length decs = length ds \<and>
           (\<forall>(tag, why) \<in> set decs. auditEntry tag why) \<and>
           inventoryLines (fst (exhibitsLoop net p f base ds st))
             = inventoryLines (fst st)
               @ map (\<lambda>(d, tag, why). docLine f d tag why (base @ ''/'' @ filename d)) (zip ds decs)"
  using assms
proof (induction ds arbitrary: st)
  case Nil
  then show ?case by simp
next
  case (Cons d ds)
  from Cons.prems have nd: "filename d \<noteq> []" "type d \<noteq> []"
    and rest: "\<forall>d \<in> set ds. filename d \<noteq> [] \<and> type d \<noteq> []" by auto
  obtain tag why where tw: "auditEntry tag why"
    and l1: "inventoryLines (fst (exhibitStep net p f base d st))
             = inventoryLines (fst st) @ [docLine f d tag why (base @ ''/'' @ filename d)]"
    using step_line[OF nd] by blast
  obtain decs where len: "length decs = length ds"
    and ok: "\<forall>(tag, why) \<in> set decs. auditEntry tag why"
    and l2: "inventoryLines (fst (exhibitsLoop net p f base ds (exhibitStep net p f base d st)))
             = inventoryLines (fst (exhibitStep net p f base d st))
               @ map (\<lambda>(d, tag, why). docLine f d tag why (base @ ''/'' @ filename d)) (zip ds decs)"
    using Cons.IH[OF rest] by blast
  show ?case
  proof (intro exI[of _ "(tag, why) # decs"] conjI)
    show "length ((tag, why) # decs) = length (d # ds)" using len by simp
    show "\<forall>(tag, why) \<in> set ((tag, why) # decs).
            auditEntry tag why"
      using tw ok by simp
    show "inventoryLines (fst (exhibitsLoop net p f base (d # ds) st))
             = inventoryLines (fst st)
               @ map (\<lambda>(d, tag, why). docLine f d tag why (base @ ''/'' @ filename d))
                   (zip (d # ds) ((tag, why) # decs))"
      using l1 l2 by simp
  qed
qed

lemma disabled_lines:
  "inventoryLines (disabledLoop f base ds s)
     = inventoryLines s
       @ map (\<lambda>(d, tag, why). docLine f d tag why (base @ ''/'' @ filename d))
           (zip ds (replicate (length ds) (''SKIPPED'', ''exhibits disabled'')))"
  by (induction ds arbitrary: s) auto

lemma disabled_entries:
  "\<forall>(tag, why) \<in> set (replicate n (''SKIPPED'', ''exhibits disabled'')). auditEntry tag why"
  by (simp add: auditEntry_def)

text \<open>The lines that the documents of one index add.\<close>

lemma enumerate_lines:
  "\<exists>ordered decs.
     mset ordered = mset (getDocsFromIndexHtml idxBuf) \<and> length decs = length ordered \<and>
     (\<forall>(tag, why) \<in> set decs. auditEntry tag why) \<and>
     inventoryLines (enumerateDocs net pf p cik10 f idxBuf s)
       = inventoryLines s
         @ (if getDocsFromIndexHtml idxBuf = [] then
              [inventoryLine f [] [] [] [] ''SKIPPED''
                 ''index parsed but no docs rows found (parser/table variance)''
                 (filingIndexUrl cik10 f)]
            else [])
         @ map (\<lambda>(d, tag, why). docLine f d tag why (filingBasePath cik10 f @ ''/'' @ filename d))
             (zip ordered decs)"
proof -
  let ?docs = "getDocsFromIndexHtml idxBuf"
  let ?s5 = "if ?docs = [] then
               s\<lparr>inventoryLines := inventoryLines s
                    @ [inventoryLine f [] [] [] [] ''SKIPPED''
                         ''index parsed but no docs rows found (parser/table variance)''
                         (filingIndexUrl cik10 f)]\<rparr>
             else s"
  have s5: "inventoryLines ?s5 = inventoryLines s
         @ (if ?docs = [] then
              [inventoryLine f [] [] [] [] ''SKIPPED''
                 ''index parsed but no docs rows found (parser/table variance)''
                 (filingIndexUrl cik10 f)]
            else [])" by simp
  show ?thesis
  proof (cases "reqIncludeExhibits p")
    case False
    then have "enumerateDocs net pf p cik10 f idxBuf s = disabledLoop f (filingBasePath cik10 f) ?docs ?s5"
      by (simp add: enumerateDocs_def Let_def)
    then have "inventoryLines (enumerateDocs net pf p cik10 f idxBuf s)
       = inventoryLines ?s5
         @ map (\<lambda>(d, tag, why). docLine f d tag why (filingBasePath cik10 f @ ''/'' @ filename d))
             (zip ?docs (replicate (length ?docs) (''SKIPPED'', ''exhibits disabled'')))"
      by (simp only: disabled_lines)
    then show ?thesis
      unfolding s5 using disabled_entries[of "length ?docs"]
      by (intro exI[of _ ?docs] exI[of _ "replicate (length ?docs) (''SKIPPED'', ''exhibits disabled'')"])
         simp
  next
    case True
    let ?ds = "scoredDocs pf ?docs"
    have named: "\<forall>d \<in> set ?ds. filename d \<noteq> [] \<and> type d \<noteq> []"
      using docs_named[of _ idxBuf] mset_scoredDocs[of pf ?docs] by (metis mset_eq_setD)
    from True have e: "enumerateDocs net pf p cik10 f idxBuf s
             = fst (exhibitsLoop net p f (filingBasePath cik10 f) ?ds (?s5, 0))"
      by (simp add: enumerateDocs_def Let_def)
    obtain decs where "length decs = length ?ds"
      "\<forall>(tag, why) \<in> set decs. auditEntry tag why"
      "inventoryLines (fst (exhibitsLoop net p f (filingBasePath cik10 f) ?ds (?s5, 0)))
             = inventoryLines (fst (?s5, 0::nat))
               @ map (\<lambda>(d, tag, why). docLine f d tag why (filingBasePath cik10 f @ ''/'' @ filename d))
                   (zip ?ds decs)"
      using loop_lines[OF named, of net p f "filingBasePath cik10 f" "(?s5, 0)"] by blast
    then show ?thesis
      unfolding e using s5 mset_scoredDocs[of pf ?docs]
      by (intro exI[of _ ?ds] exI[of _ decs]) simp
  qed
qed

lemma step_grows:
  "prefix (inventoryLines (fst st)) (inventoryLines (fst (exhibitStep net p f base d st)))"
  by (simp add: step_defs split: option.splits)

lemma loop_grows:
  "prefix (inventoryLines (fst st)) (inventoryLines (fst (exhibitsLoop net p f base ds st)))"
proof (induction ds arbitrary: st)
  case Nil
  then show ?case by simp
next
  case (Cons d ds)
  from step_grows[of st net p f base d] Cons.IH[of "exhibitStep net p f base d st"]
  show ?case by (simp add: prefix_order.trans)
qed

lemma disabled_grows:
  "prefix (inventoryLines s) (inventoryLines (disabledLoop f base ds s))"
  by (simp add: disabled_lines)

lemma enumerate_grows:
  "prefix (inventoryLines s) (inventoryLines (enumerateDocs net pf p cik10 f idxBuf s))"
proof -
  let ?docs = "getDocsFromIndexHtml idxBuf"
  let ?s5 = "if ?docs = [] then
               s\<lparr>inventoryLines := inventoryLines s
                    @ [inventoryLine f [] [] [] [] ''SKIPPED''
                         ''index parsed but no docs rows found (parser/table variance)''
                         (filingIndexUrl cik10 f)]\<rparr>
             else s"
  have a: "prefix (inventoryLines s) (inventoryLines ?s5)" by simp
  have b: "prefix (inventoryLines ?s5) (inventoryLines (enumerateDocs net pf p cik10 f idxBuf s))"
  proof (cases "reqIncludeExhibits p")
    case False
    then have "enumerateDocs net pf p cik10 f idxBuf s = disabledLoop f (filingBasePath cik10 f) ?docs ?s5"
      by (simp add: enumerateDocs_def Let_def)
    then show ?thesis by (simp only: disabled_grows)
  next
    case True
    then have "enumerateDocs net pf p cik10 f idxBuf s
             = fst (exhibitsLoop net p f (filingBasePath cik10 f) (scoredDocs pf ?docs) (?s5, 0))"
      by (simp add: enumerateDocs_def Let_def)
    then show ?thesis
      using loop_grows[of "(?s5, 0)" net p f "filingBasePath cik10 f" "scoredDocs pf ?docs"]
      by (simp only: fst_conv)
  qed
  from a b show ?thesis by (rule prefix_order.trans)
qed

lemma filing_grows:
  "prefix (inventoryLines s) (inventoryLines (snd (processFiling net pf p cik10 f s)))"
proof (cases "net (length (requests s)) (filingArchiveUrl cik10 f)")
  case None
  then show ?thesis by (simp add: processFiling_def downloadAsBuffer_def)
next
  case main: (Some mainBuf)
  show ?thesis
  proof (cases "net (Suc (length (requests s))) (filingIndexUrl cik10 f)")
    case None
    with main show ?thesis by (simp add: processFiling_def downloadAsBuffer_def Let_def)
  next
    case idx: (Some idxBuf)
    let ?s4 = "s\<lparr>requests := requests s @ [filingArchiveUrl cik10 f, filingIndexUrl cik10 f],
                   archive := archive s
                      @ [(''filings/''
                          @ safeName (filingDate f @ ''__'' @ form f @ ''__'' @ accessionNumber f
                                      @ ''__'' @ primaryDocument f), mainBuf),
                         (''indexes/''
                              @ safeName (filingDate f @ ''__'' @ form f @ ''__''
                                          @ accessionNumber f @ ''__INDEX.html''), idxBuf)]\<rparr>"
    have r: "snd (processFiling net pf p cik10 f s) = enumerateDocs net pf p cik10 f idxBuf ?s4"
      using main idx by (simp add: processFiling_def downloadAsBuffer_def Let_def)
    from enumerate_grows[of ?s4 net pf p cik10 f idxBuf] show ?thesis unfolding r by simp
  qed
qed

lemma run_grows:
  "prefix (inventoryLines s) (inventoryLines (snd (processFilings net pf p cik10 fs s)))"
proof (induction fs arbitrary: s)
  case Nil
  then show ?case by simp
next
  case (Cons f fs)
  obtain e s1 where r: "processFiling net pf p cik10 f s = (e, s1)"
    by (cases "processFiling net pf p cik10 f s")
  have g: "prefix (inventoryLines s) (inventoryLines s1)"
    using filing_grows[of s net pf p cik10 f] r by simp
  show ?case
  proof (cases e)
    case (Some err)
    with r g show ?thesis by simp
  next
    case None
    with r g Cons.IH[of s1] show ?thesis by (simp add: prefix_order.trans)
  qed
qed

lemma run_append:
  "processFilings net pf p cik10 (xs @ ys) s0
     = (case processFilings net pf p cik10 xs s0 of
          (Some e, s) \<Rightarrow> (Some e, s)
        | (None, s) \<Rightarrow> processFilings net pf p cik10 ys s)"
proof (induction xs arbitrary: s0)
  case Nil
  then show ?case by simp
next
  case (Cons x xs)
  obtain e s1 where r: "processFiling net pf p cik10 x s0 = (e, s1)"
    by (cases "processFiling net pf p cik10 x s0")
  show ?case
  proof (cases e)
    case None
    with r Cons.IH[of s1] show ?thesis by simp
  next
    case (Some err)
    with r show ?thesis by simp
  qed
qed

lemma filing_lines:
  assumes main: "net (length (requests s)) (filingArchiveUrl cik10 f) = Some mainBuf"
      and idx: "net (Suc (length (requests s))) (filingIndexUrl cik10 f) = Some idxBuf"
  shows "fst (processFiling net pf p cik10 f s) = None \<and>
   (\<exists>ordered decs.
     mset ordered = mset (getDocsFromIndexHtml idxBuf) \<and> length decs = length ordered \<and>
     (\<forall>(tag, why) \<in> set decs. auditEntry tag why) \<and>
     inventoryLines (snd (processFiling net pf p cik10 f s))
       = inventoryLines s
         @ (if getDocsFromIndexHtml idxBuf = [] then
              [inventoryLine f [] [] [] [] ''SKIPPED''
                 ''index parsed but no docs rows found (parser/table variance)''
                 (filingIndexUrl cik10 f)]
            else [])
         @ map (\<lambda>(d, tag, why). docLine f d tag why (filingBasePath cik10 f @ ''/'' @ filename d))
             (zip ordered decs))"
proof -
  let ?s4 = "s\<lparr>requests := requests s @ [filingArchiveUrl cik10 f, filingIndexUrl cik10 f],
                   archive := archive s
                      @ [(''filings/''
                          @ safeName (filingDate f @ ''__'' @ form f @ ''__'' @ accessionNumber f
                                      @ ''__'' @ primaryDocument f), mainBuf),
                         (''indexes/''
                              @ safeName (filingDate f @ ''__'' @ form f @ ''__''
                                          @ accessionNumber f @ ''__INDEX.html''), idxBuf)]\<rparr>"
  have r: "processFiling net pf p cik10 f s = (None, enumerateDocs net pf p cik10 f idxBuf ?s4)"
    using main idx by (simp add: processFiling_def downloadAsBuffer_def Let_def)
  have l: "inventoryLines ?s4 = inventoryLines s" by simp
  have 1: "fst (processFiling net pf p cik10 f s) = None" by (simp only: r fst_conv)
  have 2: "snd (processFiling net pf p cik10 f s) = enumerateDocs net pf p cik10 f idxBuf ?s4"
    by (simp only: r snd_conv)
  from enumerate_lines[of idxBuf net pf p cik10 f ?s4] 1 show ?thesis
    by (simp only: 2 l)
qed

lemma docLine_parse:
  assumes "\<forall>v \<in> set [filingDate f, form f, accessionNumber f, type d, filename d, sizeText d,
                      description d, tag, why, url]. CHR 0x0D \<in> set v \<longrightarrow> needsQuote v"
  shows "parseCsvLine (docLine f d tag why url)
     = Some [filingDate f, form f, accessionNumber f, type d, filename d, sizeText d,
             description d, tag, why, url]"
proof -
  have "docLine f d tag why url
          = join '','' (map csvCell [filingDate f, form f, accessionNumber f, type d, filename d,
                                     sizeText d, description d, tag, why, url])"
    by (simp add: docLine_def inventoryLine_def toCsvLine_def orElse_def)
  then show ?thesis
    using parse_join[of "[filingDate f, form f, accessionNumber f, type d, filename d,
                          sizeText d, description d, tag, why, url]"] assms
    by (simp add: parseCsvLine_def)
qed

text \<open>
  Claim C6. Take a run over the selected filings and a filing \<open>f\<close> among them whose turn
  comes (the filings before it were processed without a failure) and whose main document and
  index page are retrieved. Then the inventory of the run, which goes into the archive as
  \<open>DOCS_INVENTORY.csv\<close>, holds, right after the lines that were there when the turn of \<open>f\<close>
  began, one line for each document that \<open>getDocsFromIndexHtml\<close> enumerates from the index
  page (preceded by a notice when there is none): the documents in some order, each exactly
  once, each line tagged \<open>DOWNLOADED\<close> with an empty reason or \<open>SKIPPED\<close> with a reason that
  is not empty. Read back as CSV, such a line gives the filing, the document's type, file
  name, size text and description, the tag, the reason and the address, as long as none of
  these ten cells holds a carriage return without a comma, a double quote or a line feed
  (such a cell is written without quotes, and the carriage return ends the record).
\<close>

theorem C6_every_doc_row_in_inventory:
  assumes "processFilings net pf p cik10 pre s0 = (None, s)"
      and "net (length (requests s)) (filingArchiveUrl cik10 f) = Some mainBuf"
      and "net (Suc (length (requests s))) (filingIndexUrl cik10 f) = Some idxBuf"
  shows "(\<exists>ordered decs rest.
     mset ordered = mset (getDocsFromIndexHtml idxBuf) \<and> length decs = length ordered \<and>
     (\<forall>(tag, why) \<in> set decs. auditEntry tag why) \<and>
     inventoryLines (snd (processFilings net pf p cik10 (pre @ f # post) s0))
       = inventoryLines s
         @ (if getDocsFromIndexHtml idxBuf = [] then
              [inventoryLine f [] [] [] [] ''SKIPPED''
                 ''index parsed but no docs rows found (parser/table variance)''
                 (filingIndexUrl cik10 f)]
            else [])
         @ map (\<lambda>(d, tag, why). docLine f d tag why (filingBasePath cik10 f @ ''/'' @ filename d))
             (zip ordered decs)
         @ rest) \<and>
   (\<forall>d tag why url.
      (\<forall>v \<in> set [filingDate f, form f, accessionNumber f, type d, filename d, sizeText d,
                   description d, tag, why, url]. CHR 0x0D \<in> set v \<longrightarrow> needsQuote v) \<longrightarrow>
      parseCsvLine (docLine f d tag why url)
        = Some [filingDate f, form f, accessionNumber f, type d, filename d, sizeText d,
                description d, tag, why, url]) \<and>
   (''DOCS_INVENTORY.csv'',
      join [CHR 0x0A] (inventoryLines (snd (processFilings net pf p cik10 (pre @ f # post) s0))))
     \<in> set (archive (finishPack (snd (processFilings net pf p cik10 (pre @ f # post) s0))))"
proof (intro conjI allI impI)
  obtain s1 where r: "processFiling net pf p cik10 f s = (None, s1)"
    using filing_lines[OF assms(2,3), of pf p] by (cases "processFiling net pf p cik10 f s") auto
  from filing_lines[OF assms(2,3), of pf p] r obtain ordered decs where
    o: "mset ordered = mset (getDocsFromIndexHtml idxBuf)" "length decs = length ordered"
       "\<forall>(tag, why) \<in> set decs. auditEntry tag why"
       "inventoryLines s1
       = inventoryLines s
         @ (if getDocsFromIndexHtml idxBuf = [] then
              [inventoryLine f [] [] [] [] ''SKIPPED''
                 ''index parsed but no docs rows found (parser/table variance)''
                 (filingIndexUrl cik10 f)]
            else [])
         @ map (\<lambda>(d, tag, why). docLine f d tag why (filingBasePath cik10 f @ ''/'' @ filename d))
             (zip ordered decs)"
    by auto
  have run: "processFilings net pf p cik10 (pre @ f # post) s0 = processFilings net pf p cik10 post s1"
    using assms(1) r by (simp add: run_append)
  obtain rest where rest: "inventoryLines (snd (processFilings net pf p cik10 post s1))
      = inventoryLines s1 @ rest"
    using run_grows[of s1 net pf p cik10 post] by (auto simp: prefix_def)
  show "\<exists>ordered decs rest.
     mset ordered = mset (getDocsFromIndexHtml idxBuf) \<and> length decs = length ordered \<and>
     (\<forall>(tag, why) \<in> set decs. auditEntry tag why) \<and>
     inventoryLines (snd (processFilings net pf p cik10 (pre @ f # post) s0))
       = inventoryLines s
         @ (if getDocsFromIndexHtml idxBuf = [] then
              [inventoryLine f [] [] [] [] ''SKIPPED''
                 ''index parsed but no docs rows found (parser/table variance)''
                 (filingIndexUrl cik10 f)]
            else [])
         @ map (\<lambda>(d, tag, why). docLine f d tag why (filingBasePath cik10 f @ ''/'' @ filename d))
             (zip ordered decs)
         @ rest"
    using o unfolding run rest
    by (intro exI[of _ ordered] exI[of _ decs] exI[of _ rest]) simp
next
  fix d :: ExhibitDoc and tag why url
  assume "\<forall>v \<in> set [filingDate f, form f, accessionNumber f, type d, filename d, sizeText d,
                     description d, tag, why, url]. CHR 0x0D \<in> set v \<longrightarrow> needsQuote v"
  then show "parseCsvLine (docLine f d tag why url)
        = Some [filingDate f, form f, accessionNumber f, type d, filename d, sizeText d,
                description d, tag, why, url]"
    by (rule docLine_parse)
next
  show "(''DOCS_INVENTORY.csv'',
      join [CHR 0x0A] (inventoryLines (snd (processFilings net pf p cik10 (pre @ f # post) s0))))
     \<in> set (archive (finishPack (snd (processFilings net pf p cik10 (pre @ f # post) s0))))"
    by (simp add: finishPack_def)
qed

text \<open>The filing of the example, first in its run: both of its pages are served. The line
  of its first exhibit, once downloaded, reads back as its ten cells.\<close>

theorem C6_every_doc_row_in_inventory_witness:
  "processFilings exNet parseFloat exCap ''0000320193'' [] (startState [] [])
     = (None, startState [] []) \<and>
   exNet 0 (filingArchiveUrl ''0000320193'' exFiling) = Some ''main'' \<and>
   exNet 1 (filingIndexUrl ''0000320193'' exFiling) = Some exIndexHtml \<and>
   (\<exists>ordered decs rest.
     mset ordered = mset (getDocsFromIndexHtml exIndexHtml) \<and> length decs = length ordered \<and>
     (\<forall>(tag, why) \<in> set decs. auditEntry tag why) \<and>
     inventoryLines (snd (processFilings exNet parseFloat exCap ''0000320193'' [exFiling]
                            (startState [] [])))
       = [inventoryHeader]
         @ (if getDocsFromIndexHtml exIndexHtml = [] then
              [inventoryLine exFiling [] [] [] [] ''SKIPPED''
                 ''index parsed but no docs rows found (parser/table variance)''
                 (filingIndexUrl ''0000320193'' exFiling)]
            else [])
         @ map (\<lambda>(d, tag, why). docLine exFiling d tag why
                  (filingBasePath ''0000320193'' exFiling @ ''/'' @ filename d))
             (zip ordered decs)
         @ rest) \<and>
   parseCsvLine (docLine exFiling exDoc10 ''DOWNLOADED'' [] ''https://sec.gov/ex10.htm'')
     = Some [''2024-02-15'', ''8-K'', ''0001-24-000002'', ''EX-10.1'', ''ex10.htm'', ''50 KB'',
             ''Contract'', ''DOWNLOADED'', [], ''https://sec.gov/ex10.htm'']"
proof -
  have h1: "processFilings exNet parseFloat exCap ''0000320193'' [] (startState [] [])
     = (None, startState [] [])" by simp
  have b: "filingBasePath ''0000320193'' exFiling = exBase" by code_simp
  have e: "primaryDocument exFiling = ''a.htm''" "accessionNumber exFiling = ''0001-24-000002''"
    by (simp_all add: exFiling_def)
  have h2: "exNet (length (requests (startState [] []))) (filingArchiveUrl ''0000320193'' exFiling)
     = Some ''main''"
    by (simp add: startState_def filingArchiveUrl_def b e exNet_def)
  have h3: "exNet (Suc (length (requests (startState [] [])))) (filingIndexUrl ''0000320193'' exFiling)
     = Some exIndexHtml"
    by (simp add: startState_def filingIndexUrl_def b e exNet_def)
  have l: "inventoryLines (startState [] []) = [inventoryHeader]" by (simp add: startState_def)
  have c: "\<forall>v \<in> set [filingDate exFiling, form exFiling, accessionNumber exFiling, type exDoc10,
                      filename exDoc10, sizeText exDoc10, description exDoc10, ''DOWNLOADED'', [],
                      ''https://sec.gov/ex10.htm'']. CHR 0x0D \<in> set v \<longrightarrow> needsQuote v"
    by (simp add: exFiling_def exDoc10_def)
  from C6_every_doc_row_in_inventory[OF h1 h2 h3, where post = "[]", THEN conjunct2, THEN conjunct1]
    c
  have rb: "parseCsvLine (docLine exFiling exDoc10 ''DOWNLOADED'' [] ''https://sec.gov/ex10.htm'')
     = Some [filingDate exFiling, form exFiling, accessionNumber exFiling, type exDoc10,
             filename exDoc10, sizeText exDoc10, description exDoc10, ''DOWNLOADED'', [],
             ''https://sec.gov/ex10.htm'']"
    by blast
  have v: "[filingDate exFiling, form exFiling, accessionNumber exFiling, type exDoc10,
             filename exDoc10, sizeText exDoc10, description exDoc10]
           = [''2024-02-15'', ''8-K'', ''0001-24-000002'', ''EX-10.1'', ''ex10.htm'', ''50 KB'',
              ''Contract'']"
    by (simp add: exFiling_def exDoc10_def)
  from C6_every_doc_row_in_inventory[OF h1 h2 h3, where post = "[]", THEN conjunct1]
    h1 h2 h3 l
  have main: "processFilings exNet parseFloat exCap ''0000320193'' [] (startState [] [])
     = (None, startState [] []) \<and>
   exNet 0 (filingArchiveUrl ''0000320193'' exFiling) = Some ''main'' \<and>
   exNet 1 (filingIndexUrl ''0000320193'' exFiling) = Some exIndexHtml \<and>
   (\<exists>ordered decs rest.
     mset ordered = mset (getDocsFromIndexHtml exIndexHtml) \<and> length decs = length ordered \<and>
     (\<forall>(tag, why) \<in> set decs. auditEntry tag why) \<and>
     inventoryLines (snd (processFilings exNet parseFloat exCap ''0000320193'' [exFiling]
                            (startState [] [])))
       = [inventoryHeader]
         @ (if getDocsFromIndexHtml exIndexHtml = [] then
              [inventoryLine exFiling [] [] [] [] ''SKIPPED''
                 ''index parsed but no docs rows found (parser/table variance)''
                 (filingIndexUrl ''0000320193'' exFiling)]
            else [])
         @ map (\<lambda>(d, tag, why). docLine exFiling d tag why
                  (filingBasePath ''0000320193'' exFiling @ ''/'' @ filename d))
             (zip ordered decs)
         @ rest)"
    by (simp add: startState_def)
  from rb v have rb': "parseCsvLine (docLine exFiling exDoc10 ''DOWNLOADED'' [] ''https://sec.gov/ex10.htm'')
     = Some [''2024-02-15'', ''8-K'', ''0001-24-000002'', ''EX-10.1'', ''ex10.htm'', ''50 KB'',
             ''Contract'', ''DOWNLOADED'', [], ''https://sec.gov/ex10.htm'']"
    by simp
  from main rb' show ?thesis by (simp only: simp_thms)
qed

section \<open>Properties of the request validation\<close>









end
